theory Spec2Isabelle
  imports Complex_Main "HOL-Library.Sublist"
begin

section \<open>JavaScript numbers\<close>

text \<open>
  A JavaScript number is a binary64 value: a real number with a significand of 53 bits
  and an exponent between -1022 and 1023 (subnormal below), or one of the three special
  values \<open>Infinity\<close>, \<open>-Infinity\<close> and \<open>NaN\<close>. The two zeros are not told apart: nothing
  in the script divides by a computed zero.
\<close>

datatype jsnum = Num real | PosInf | NegInf | NaN

fun is_finite :: "jsnum \<Rightarrow> bool" where
  "is_finite (Num r) = True"
| "is_finite v = False"

text \<open>Rounding to the nearest integer, a tie going to the even one.\<close>

definition round_half_even :: "real \<Rightarrow> int" where
  "round_half_even q =
     (let f = \<lfloor>q\<rfloor> in
        if q - of_int f < 1 / 2 then f
        else if 1 / 2 < q - of_int f then f + 1
        else if even f then f else f + 1)"

definition min_exponent :: int where
  "min_exponent = - 1022"

definition max_exponent :: int where
  "max_exponent = 1023"

text \<open>The exponent of the binade of \<open>r\<close>; every subnormal has the least one.\<close>

definition exponent64 :: "real \<Rightarrow> int" where
  "exponent64 r = max \<lfloor>log 2 \<bar>r\<bar>\<rfloor> min_exponent"

text \<open>
  The binary64 value of an exact result: the nearest multiple of the unit in the last
  place of its binade, a tie going to the even significand, and an infinity once that
  reaches \<open>2 ^ 1024\<close>. Every arithmetic operation of the language, and the reading of a
  decimal literal, returns the exact result rounded so.
\<close>

definition round64 :: "real \<Rightarrow> jsnum" where
  "round64 r =
     (if r = 0 then Num 0
      else let u = 2 powi (exponent64 r - 52);
               v = of_int (round_half_even (r / u)) * u
           in if 2 powi (max_exponent + 1) \<le> \<bar>v\<bar>
              then (if 0 < r then PosInf else NegInf) else Num v)"

text \<open>
  The operations take the rounding \<open>fl\<close> of the machine as their first argument. The
  script runs with \<open>fl = round64\<close>; with \<open>fl = Num\<close> the same expressions are evaluated
  without rounding.
\<close>

fun js_neg :: "jsnum \<Rightarrow> jsnum" where
  "js_neg (Num a) = Num (- a)"
| "js_neg PosInf = NegInf"
| "js_neg NegInf = PosInf"
| "js_neg NaN = NaN"

fun js_add :: "(real \<Rightarrow> jsnum) \<Rightarrow> jsnum \<Rightarrow> jsnum \<Rightarrow> jsnum" where
  "js_add fl (Num a) (Num b) = fl (a + b)"
| "js_add fl NaN q = NaN"
| "js_add fl p NaN = NaN"
| "js_add fl PosInf NegInf = NaN"
| "js_add fl NegInf PosInf = NaN"
| "js_add fl PosInf q = PosInf"
| "js_add fl p PosInf = PosInf"
| "js_add fl NegInf q = NegInf"
| "js_add fl p NegInf = NegInf"

definition js_sub :: "(real \<Rightarrow> jsnum) \<Rightarrow> jsnum \<Rightarrow> jsnum \<Rightarrow> jsnum" where
  "js_sub fl p q = js_add fl p (js_neg q)"

fun js_mul :: "(real \<Rightarrow> jsnum) \<Rightarrow> jsnum \<Rightarrow> jsnum \<Rightarrow> jsnum" where
  "js_mul fl (Num a) (Num b) = fl (a * b)"
| "js_mul fl NaN q = NaN"
| "js_mul fl p NaN = NaN"
| "js_mul fl (Num a) q =
     (if a = 0 then NaN else if (0 < a) = (q = PosInf) then PosInf else NegInf)"
| "js_mul fl p (Num b) =
     (if b = 0 then NaN else if (0 < b) = (p = PosInf) then PosInf else NegInf)"
| "js_mul fl p q = (if p = q then PosInf else NegInf)"

text \<open>\<open>v ** 2\<close>: the rounded square, also of the special values.\<close>

definition js_pow2 :: "(real \<Rightarrow> jsnum) \<Rightarrow> jsnum \<Rightarrow> jsnum" where
  "js_pow2 fl v = js_mul fl v v"

fun js_div :: "(real \<Rightarrow> jsnum) \<Rightarrow> jsnum \<Rightarrow> jsnum \<Rightarrow> jsnum" where
  "js_div fl (Num a) (Num b) =
     (if b \<noteq> 0 then fl (a / b)
      else if a = 0 then NaN
      else if 0 < a then PosInf else NegInf)"
| "js_div fl NaN q = NaN"
| "js_div fl p NaN = NaN"
| "js_div fl (Num a) q = Num 0"
| "js_div fl p (Num b) = (if (0 \<le> b) = (p = PosInf) then PosInf else NegInf)"
| "js_div fl p q = NaN"

fun js_sqrt :: "(real \<Rightarrow> jsnum) \<Rightarrow> jsnum \<Rightarrow> jsnum" where
  "js_sqrt fl (Num a) = (if a < 0 then NaN else fl (sqrt a))"
| "js_sqrt fl PosInf = PosInf"
| "js_sqrt fl v = NaN"

text \<open>\<open>p > q\<close>: exact, and false as soon as one side is \<open>NaN\<close>.\<close>

fun js_gt :: "jsnum \<Rightarrow> jsnum \<Rightarrow> bool" where
  "js_gt (Num a) (Num b) = (b < a)"
| "js_gt NaN q = False"
| "js_gt p NaN = False"
| "js_gt p PosInf = False"
| "js_gt NegInf q = False"
| "js_gt p q = True"

text \<open>Truthiness of a number: \<open>0\<close> and \<open>NaN\<close> are falsy.\<close>

fun truthy :: "jsnum \<Rightarrow> bool" where
  "truthy (Num a) = (a \<noteq> 0)"
| "truthy NaN = False"
| "truthy v = True"

text \<open>
  \<open>arr[i] || d\<close> on an array of numbers: an index out of range reads \<open>undefined\<close>, which
  is falsy as well.
\<close>

definition index_or :: "jsnum list \<Rightarrow> nat \<Rightarrow> jsnum \<Rightarrow> jsnum" where
  "index_or arr i d = (if i < length arr \<and> truthy (arr ! i) then arr ! i else d)"

section \<open>The sample window and its features\<close>

datatype sample = Sample (sample_x: jsnum) (sample_y: jsnum) (sample_z: jsnum)

definition SAMPLING_TARGET :: nat where
  "SAMPLING_TARGET = 200"

text \<open>\<open>buffer.push(sample); if (buffer.length > SAMPLING_TARGET) buffer.shift();\<close>\<close>

definition push_shift :: "sample list \<Rightarrow> sample \<Rightarrow> sample list" where
  "push_shift buf s =
     (let b = buf @ [s] in if length b > SAMPLING_TARGET then tl b else b)"

text \<open>\<open>arr.reduce((a,b)=>a+b,0)/arr.length\<close>\<close>

definition mean :: "(real \<Rightarrow> jsnum) \<Rightarrow> jsnum list \<Rightarrow> jsnum" where
  "mean fl arr = js_div fl (foldl (js_add fl) (Num 0) arr) (Num (real (length arr)))"

definition std :: "(real \<Rightarrow> jsnum) \<Rightarrow> jsnum list \<Rightarrow> jsnum" where
  "std fl arr =
     (let m = mean fl arr
      in js_sqrt fl
           (js_div fl (foldl (\<lambda>s v. js_add fl s (js_pow2 fl (js_sub fl v m))) (Num 0) arr)
                      (Num (real (length arr)))))"

text \<open>The loop of \<open>rms\<close> runs over the indices of the window and reads the three axis arrays.\<close>

definition rms :: "(real \<Rightarrow> jsnum) \<Rightarrow> jsnum list \<Rightarrow> jsnum list \<Rightarrow> jsnum list \<Rightarrow> nat \<Rightarrow> jsnum" where
  "rms fl xs ys zs n =
     js_div fl
       (foldl (\<lambda>s i. js_add fl s
            (js_sqrt fl
               (js_add fl (js_add fl (js_mul fl (xs ! i) (xs ! i)) (js_mul fl (ys ! i) (ys ! i)))
                          (js_mul fl (zs ! i) (zs ! i)))))
          (Num 0) [0..<n])
       (Num (real n))"

definition computeFeatures :: "(real \<Rightarrow> jsnum) \<Rightarrow> sample list \<Rightarrow> jsnum list" where
  "computeFeatures fl buf =
     (let xs = map sample_x buf; ys = map sample_y buf; zs = map sample_z buf
      in [mean fl xs, mean fl ys, mean fl zs, std fl xs, std fl ys, std fl zs,
          rms fl xs ys zs (length buf)])"

section \<open>Standardisation\<close>

text \<open>
  The parsed \<open>scaler.json\<close>. A missing \<open>mean\<close> or \<open>scale\<close> field is the empty list here:
  \<open>standardize\<close> reads both through \<open>|| []\<close>.
\<close>

record scaler_params =
  scaler_mean :: "jsnum list"
  scaler_scale :: "jsnum list"

text \<open>The literal \<open>1e-8\<close>.\<close>

definition epsilon :: "(real \<Rightarrow> jsnum) \<Rightarrow> jsnum" where
  "epsilon fl = fl (1 / 10 ^ 8)"

text \<open>
  \<open>scaler?.mean || []\<close>, \<open>scaler?.scale || []\<close>, and then for every index of \<open>features\<close>
  the value \<open>(features[i] - (mean[i] || 0)) / (scale[i] || 1e-8)\<close>.
\<close>

function standardize_loop ::
  "(real \<Rightarrow> jsnum) \<Rightarrow> jsnum list \<Rightarrow> jsnum list \<Rightarrow> jsnum list \<Rightarrow> nat \<Rightarrow> jsnum list \<Rightarrow> jsnum list" where
  "standardize_loop fl features mn sc i out =
     (if i < length features
      then standardize_loop fl features mn sc (i + 1)
             (out @ [js_div fl (js_sub fl (features ! i) (index_or mn i (Num 0)))
                               (index_or sc i (epsilon fl))])
      else out)"
  by pat_completeness auto
termination
  by (relation "measure (\<lambda>(fl, features, mn, sc, i, out). length features - i)") auto

declare standardize_loop.simps [simp del]

definition standardize ::
  "(real \<Rightarrow> jsnum) \<Rightarrow> scaler_params option \<Rightarrow> jsnum list \<Rightarrow> jsnum list" where
  "standardize fl scaler features =
     (let mn = (case scaler of None \<Rightarrow> [] | Some p \<Rightarrow> scaler_mean p);
          sc = (case scaler of None \<Rightarrow> [] | Some p \<Rightarrow> scaler_scale p)
      in standardize_loop fl features mn sc 0 [])"

section \<open>Decision: arg-max and the five-level mapping\<close>

text \<open>\<open>let maxIdx = 0; for (let i=1;i<probs.length;i++) if (probs[i] > probs[maxIdx]) maxIdx = i;\<close>\<close>

function argmax_loop :: "jsnum list \<Rightarrow> nat \<Rightarrow> nat \<Rightarrow> nat" where
  "argmax_loop probs i maxIdx =
     (if i < length probs
      then argmax_loop probs (i + 1) (if js_gt (probs ! i) (probs ! maxIdx) then i else maxIdx)
      else maxIdx)"
  by pat_completeness auto
termination
  by (relation "measure (\<lambda>(probs, i, maxIdx). length probs - i)") auto

declare argmax_loop.simps [simp del]

definition argmax :: "jsnum list \<Rightarrow> nat" where
  "argmax probs = argmax_loop probs 1 0"

text \<open>
  Labels are strings of ASCII characters; \<open>toLowerCase\<close> maps \<open>A\<close> to \<open>Z\<close> onto \<open>a\<close> to
  \<open>z\<close> and keeps every other character.
\<close>

definition lower_char :: "char \<Rightarrow> char" where
  "lower_char c =
     (let n = (of_char c :: nat) in if 65 \<le> n \<and> n \<le> 90 then char_of (n + 32) else c)"

definition toLowerCase :: "string \<Rightarrow> string" where
  "toLowerCase lab = map lower_char lab"

text \<open>\<open>l.includes(s)\<close>: \<open>s\<close> occurs in \<open>l\<close> as a contiguous run.\<close>

fun str_includes :: "string \<Rightarrow> string \<Rightarrow> bool" where
  "str_includes [] s = (s = [])"
| "str_includes (c # cs) s = (prefix s (c # cs) \<or> str_includes cs s)"

definition mapToFive :: "string \<Rightarrow> nat" where
  "mapToFive lab =
     (if lab = [] then 3
      else let l = toLowerCase lab in
        if str_includes l ''sit'' \<or> str_includes l ''stand'' then 1
        else if l = ''walking'' then 3
        else if l = ''upstairs'' \<or> l = ''downstairs'' then 3
        else if l = ''jogging'' \<or> l = ''running'' then 5
        else 3)"

text \<open>The mapping of the second listing of the script.\<close>

definition mapToFive_v2 :: "string \<Rightarrow> nat" where
  "mapToFive_v2 lab =
     (if str_includes (toLowerCase lab) ''sit'' \<or> str_includes (toLowerCase lab) ''standing'' then 1
      else if toLowerCase lab = ''walking'' then 3
      else if toLowerCase lab = ''upstairs'' \<or> toLowerCase lab = ''downstairs'' then 3
      else if toLowerCase lab = ''jogging'' then 5
      else 3)"

section \<open>The pipeline\<close>

text \<open>The messages written to the status line \<open>logs\<close>.\<close>

datatype status =
    ModelLoading | ScalerLoading | ModelReady | LoadFailed
  | SkippingNotLoaded | PredictionFailed | SensorStartFailed | SensorRunning

text \<open>What the call of the classifier can throw.\<close>

datatype error = PredictionRuntimeError | TypeError

text \<open>What \<open>updateUI\<close> displays: the label, the lit indicator and the confidence.\<close>

record prediction =
  pred_label :: string
  pred_five :: nat
  pred_confidence :: jsnum

text \<open>
  The variables of the script. \<open>model\<close> stands for the lines from \<open>tf.tensor2d\<close> to
  \<open>out.dispose()\<close>: given the standardised vector it throws or yields the probabilities.
  Each of the three assets is \<open>None\<close> while it is \<open>null\<close>. \<open>calls\<close> records the
  vectors the classifier has been called with, the latest last.
\<close>

record state =
  model :: "(jsnum list \<Rightarrow> error + jsnum list) option"
  scaler :: "scaler_params option"
  labels :: "string list option"
  buffer :: "sample list"
  lastPredTime :: int
  logs :: status
  shown :: "prediction option"
  calls :: "jsnum list list"

text \<open>What one call of \<open>doPredictFromBuffer\<close> did.\<close>

datatype outcome = SkippedNotLoaded | RateLimited | Predicted | Caught error

definition updateUI :: "string \<Rightarrow> nat \<Rightarrow> jsnum \<Rightarrow> state \<Rightarrow> state" where
  "updateUI label five confidence st =
     st\<lparr>shown := Some \<lparr>pred_label = label, pred_five = five, pred_confidence = confidence\<rparr>\<rparr>"

text \<open>
  \<open>probs[maxIdx]\<close> read for the display: out of range it is \<open>undefined\<close>, which the
  multiplication by 100 turns into \<open>NaN\<close>.
\<close>

definition prob_at :: "jsnum list \<Rightarrow> nat \<Rightarrow> jsnum" where
  "prob_at probs i = (if i < length probs then probs ! i else NaN)"

text \<open>\<open>labels[maxIdx] || 'unknown'\<close>: a missing or empty label is replaced.\<close>

definition label_or_unknown :: "string list \<Rightarrow> nat \<Rightarrow> string" where
  "label_or_unknown ls i = (if i < length ls \<and> ls ! i \<noteq> [] then ls ! i else ''unknown'')"

text \<open>\<open>now\<close> is what \<open>Date.now()\<close> returns during the call, in milliseconds.\<close>

definition doPredictFromBuffer :: "state \<Rightarrow> int \<Rightarrow> state \<times> outcome" where
  "doPredictFromBuffer st now =
     (case (model st, scaler st, labels st) of
        (Some m, Some p, Some ls) \<Rightarrow>
          if now - lastPredTime st < 800 then (st, RateLimited)
          else
            let st1 = st\<lparr>lastPredTime := now\<rparr>;
                feats = computeFeatures round64 (buffer st1);
                scaled = standardize round64 (scaler st1) feats;
                st2 = st1\<lparr>calls := calls st1 @ [scaled]\<rparr>
            in (case m scaled of
                  Inl e \<Rightarrow> (st2\<lparr>logs := PredictionFailed\<rparr>, Caught e)
                | Inr probs \<Rightarrow>
                    let maxIdx = argmax probs;
                        label = label_or_unknown ls maxIdx;
                        five = mapToFive label
                    in (updateUI label five (prob_at probs maxIdx) st2, Predicted))
      | _ \<Rightarrow>
          if now - lastPredTime st > 2000
          then (st\<lparr>logs := SkippingNotLoaded, lastPredTime := now\<rparr>, SkippedNotLoaded)
          else (st, SkippedNotLoaded))"

definition processSample :: "state \<Rightarrow> sample \<Rightarrow> int \<Rightarrow> state \<times> outcome option" where
  "processSample st s now =
     (let st1 = st\<lparr>buffer := push_shift (buffer st) s\<rparr>
      in if length (buffer st1) = SAMPLING_TARGET
         then (let (st2, oc) = doPredictFromBuffer st1 now in (st2, Some oc))
         else (st1, None))"

text \<open>The pipeline fed with a sequence of samples, each with the time of its arrival.\<close>

fun run :: "state \<Rightarrow> (sample \<times> int) list \<Rightarrow> state" where
  "run st [] = st"
| "run st ((s, now) # evs) = run (fst (processSample st s now)) evs"

text \<open>The script's variables once \<open>loadAssets\<close> has returned, whatever it loaded.\<close>

definition initial_state ::
  "(jsnum list \<Rightarrow> error + jsnum list) option \<Rightarrow> scaler_params option \<Rightarrow> string list option
     \<Rightarrow> status \<Rightarrow> state" where
  "initial_state m p ls lg =
     \<lparr>model = m, scaler = p, labels = ls, buffer = [], lastPredTime = 0, logs = lg,
      shown = None, calls = []\<rparr>"

text \<open>
  Three classifiers for the examples: one that always throws, one that always answers, and
  one whose answer is an empty array.
\<close>

definition failing_model :: "jsnum list \<Rightarrow> error + jsnum list" where
  "failing_model v = Inl PredictionRuntimeError"

definition empty_model :: "jsnum list \<Rightarrow> error + jsnum list" where
  "empty_model v = Inr []"

definition fixed_model :: "jsnum list \<Rightarrow> error + jsnum list" where
  "fixed_model v = Inr [Num (1 / 10), Num (7 / 10), Num (1 / 5)]"

text \<open>
  A reading of a device at rest, a window of such readings that is one short of full, and
  the full one.
\<close>

definition resting :: sample where
  "resting = Sample (Num 0) (Num 0) (Num 1)"

definition filling_window :: "sample list" where
  "filling_window = replicate 199 resting"

definition resting_window :: "sample list" where
  "resting_window = replicate 200 resting"

text \<open>
  A scaler that leaves the features as they are, and the variables of the script with the
  assets loaded and 199 readings of the resting device taken, nothing predicted yet.
\<close>

definition unit_scaler :: scaler_params where
  "unit_scaler =
     \<lparr>scaler_mean = [Num 0, Num 0, Num 0, Num 0, Num 0, Num 0, Num 0],
      scaler_scale = [Num 1, Num 1, Num 1, Num 1, Num 1, Num 1, Num 1]\<rparr>"

definition fresh :: "(jsnum list \<Rightarrow> error + jsnum list) \<Rightarrow> state" where
  "fresh m =
     \<lparr>model = Some m, scaler = Some unit_scaler,
      labels = Some [''Walking'', ''Jogging'', ''Sitting''], buffer = filling_window,
      lastPredTime = 0, logs = ModelReady, shown = None, calls = []\<rparr>"

section \<open>The feature formulas as the specification words them\<close>











text \<open>\<open>Math.max\<close> on two numbers neither of which is \<open>NaN\<close>, as the specification words the divisor.\<close>

definition js_max :: "jsnum \<Rightarrow> jsnum \<Rightarrow> jsnum" where
  "js_max p q = (if js_gt p q then p else q)"

section \<open>Rounding to binary64\<close>

lemma round_half_even_of_int [simp]: "round_half_even (of_int n) = n"
  by (simp add: round_half_even_def)

lemma round_half_even_ge:
  assumes "of_int n \<le> q" shows "n \<le> round_half_even q"
proof -
  have "n \<le> \<lfloor>q\<rfloor>" using assms by (simp add: le_floor_iff)
  then show ?thesis by (simp add: round_half_even_def Let_def)
qed

lemma round_half_even_le:
  assumes "q \<le> of_int n" shows "round_half_even q \<le> n"
proof (cases "q = of_int n")
  case True then show ?thesis by simp
next
  case False
  with assms have "q < of_int n" by simp
  then have "\<lfloor>q\<rfloor> < n" by (simp add: floor_less_iff)
  then show ?thesis by (simp add: round_half_even_def Let_def)
qed

lemma floor_log2_bounds:
  assumes "r \<noteq> 0"
  shows "2 powi \<lfloor>log 2 \<bar>r\<bar>\<rfloor> \<le> \<bar>r\<bar>" and "\<bar>r\<bar> < 2 powi (\<lfloor>log 2 \<bar>r\<bar>\<rfloor> + 1)"
proof -
  let ?k = "\<lfloor>log 2 \<bar>r\<bar>\<rfloor>"
  have pos: "0 < \<bar>r\<bar>" using assms by simp
  have "2 powr ?k \<le> \<bar>r\<bar> \<and> \<bar>r\<bar> < 2 powr (?k + 1)"
    using floor_log_eq_powr_iff [of "\<bar>r\<bar>" 2 ?k] pos by simp
  moreover have "(2::real) powr ?k = 2 powi ?k"
    by (rule powr_real_of_int') simp_all
  moreover have "(2::real) powr (?k + 1) = 2 powi (?k + 1)"
    using powr_real_of_int' [of 2 "?k + 1"] by simp
  ultimately show "2 powi ?k \<le> \<bar>r\<bar>" and "\<bar>r\<bar> < 2 powi (?k + 1)" by simp_all
qed

lemma two_powi_less_iff: "(2::real) powi a < 2 powi b \<longleftrightarrow> a < b"
proof
  assume l: "(2::real) powi a < 2 powi b"
  show "a < b"
  proof (rule ccontr)
    assume "\<not> a < b"
    then have "(2::real) powi b \<le> 2 powi a"
      by (intro power_int_increasing) simp_all
    with l show False by simp
  qed
next
  assume "a < b"
  then show "(2::real) powi a < 2 powi b"
    by (intro power_int_strict_increasing) simp_all
qed

lemma two_powi_le_iff: "(2::real) powi a \<le> 2 powi b \<longleftrightarrow> a \<le> b"
  using two_powi_less_iff [of b a] by (simp add: not_less [symmetric])

lemma two_powi_pos: "0 < (2::real) powi a"
  by (rule zero_less_power_int) simp

lemma two_powi_diff: "(2::real) powi a / 2 powi b = 2 powi (a - b)"
  by (simp add: power_int_diff)

lemma two_powi_nonneg_of_int: "0 \<le> d \<Longrightarrow> (2::real) powi d = of_int (2 ^ nat d)"
  by (simp add: power_int_def)

lemma floor_log2_ge:
  assumes "2 powi j \<le> \<bar>r\<bar>" shows "j \<le> \<lfloor>log 2 \<bar>r\<bar>\<rfloor>"
proof -
  have pos: "0 < \<bar>r\<bar>"
    using assms two_powi_pos [of j] by linarith
  then have r: "r \<noteq> 0" by auto
  have "(2::real) powi j < 2 powi (\<lfloor>log 2 \<bar>r\<bar>\<rfloor> + 1)"
    using assms floor_log2_bounds(2) [OF r] by linarith
  then have "j < \<lfloor>log 2 \<bar>r\<bar>\<rfloor> + 1"
    by (simp only: two_powi_less_iff)
  then show ?thesis by simp
qed

lemma floor_log2_less:
  assumes "r \<noteq> 0" and "\<bar>r\<bar> < 2 powi j" shows "\<lfloor>log 2 \<bar>r\<bar>\<rfloor> < j"
proof -
  have "(2::real) powi \<lfloor>log 2 \<bar>r\<bar>\<rfloor> < 2 powi j"
    using assms floor_log2_bounds(1) [OF assms(1)] by linarith
  then show ?thesis by (simp only: two_powi_less_iff)
qed

lemma floor_log2_le:
  assumes "r \<noteq> 0" and "\<bar>r\<bar> \<le> 2 powi j" shows "\<lfloor>log 2 \<bar>r\<bar>\<rfloor> \<le> j"
proof -
  have "(2::real) powi \<lfloor>log 2 \<bar>r\<bar>\<rfloor> \<le> 2 powi j"
    using assms floor_log2_bounds(1) [OF assms(1)] by linarith
  then show ?thesis by (simp only: two_powi_le_iff)
qed

text \<open>A result that stays in range.\<close>

lemma round64_bounded:
  assumes "\<bar>r\<bar> \<le> 2 powi k" and "min_exponent \<le> k" and "k \<le> max_exponent"
  shows "\<exists>v. round64 r = Num v \<and> \<bar>v\<bar> \<le> 2 powi k"
proof (cases "r = 0")
  case True
  then show ?thesis using two_powi_pos [of k] by (simp add: round64_def)
next
  case False
  define e where "e = exponent64 r"
  define u :: real where "u = 2 powi (e - 52)"
  define n where "n = round_half_even (r / u)"
  have e: "e \<le> k"
    using floor_log2_le [OF False assms(1)] assms(2) by (simp add: e_def exponent64_def)
  have u: "0 < u" by (simp add: u_def two_powi_pos)
  define N :: int where "N = 2 ^ nat (k - e + 52)"
  have N: "of_int N = 2 powi k / u"
    using e by (simp add: N_def u_def two_powi_diff two_powi_nonneg_of_int)
  have q: "\<bar>r / u\<bar> \<le> of_int N"
    using assms(1) u by (simp add: N divide_right_mono)
  have "r / u \<le> of_int N" and "of_int (- N) \<le> r / u"
    using q by (simp_all only: abs_le_iff of_int_minus) linarith+
  then have "n \<le> N" and "- N \<le> n"
    unfolding n_def by (simp_all only: round_half_even_le round_half_even_ge)
  then have "\<bar>real_of_int n\<bar> \<le> of_int N" by linarith
  then have "\<bar>of_int n * u\<bar> \<le> of_int N * u"
    using u by (simp add: abs_mult mult_right_mono)
  also have "\<dots> = 2 powi k" using u by (simp add: N)
  finally have v: "\<bar>of_int n * u\<bar> \<le> 2 powi k" .
  have "(2::real) powi k < 2 powi (max_exponent + 1)"
    using assms(3) by (simp only: two_powi_less_iff)
  with v have "\<not> 2 powi (max_exponent + 1) \<le> \<bar>of_int n * u\<bar>" by linarith
  then have "round64 r = Num (of_int n * u)"
    using False by (simp add: round64_def Let_def n_def u_def e_def)
  with v show ?thesis by blast
qed

text \<open>A positive result does not fall below a power of two that the exact value reaches.\<close>

lemma round64_lower:
  assumes "2 powi j \<le> r" and "min_exponent \<le> j"
  shows "\<exists>v. 2 powi j \<le> v \<and>
           round64 r = (if 2 powi (max_exponent + 1) \<le> v then PosInf else Num v)"
proof -
  have pos: "0 < r" using assms(1) two_powi_pos [of j] by linarith
  define e where "e = exponent64 r"
  define u :: real where "u = 2 powi (e - 52)"
  define n where "n = round_half_even (r / u)"
  have fl: "j \<le> \<lfloor>log 2 \<bar>r\<bar>\<rfloor>"
    using floor_log2_ge [of j r] assms(1) pos by simp
  then have e: "e = \<lfloor>log 2 \<bar>r\<bar>\<rfloor>" "j \<le> e"
    using assms(2) by (simp_all add: e_def exponent64_def)
  have u: "0 < u" by (simp add: u_def two_powi_pos)
  have re: "2 powi e \<le> r"
    using floor_log2_bounds(1) [of r] pos by (simp add: e(1))
  have "of_int (2 ^ 52) = (2::real) powi e / u"
    by (simp add: u_def two_powi_diff)
  also have "\<dots> \<le> r / u" using re u by (simp add: divide_right_mono)
  finally have "2 ^ 52 \<le> n" unfolding n_def by (rule round_half_even_ge)
  then have "(2::real) ^ 52 \<le> of_int n"
    by (metis of_int_le_iff of_int_numeral of_int_power)
  then have "2 ^ 52 * u \<le> of_int n * u" using u by (simp add: mult_right_mono)
  moreover have "2 ^ 52 * u = 2 powi e"
    unfolding u_def using power_int_add [of "2::real" 52 "e - 52"] by simp
  moreover have "(2::real) powi j \<le> 2 powi e" using e(2) by (simp only: two_powi_le_iff)
  ultimately have v: "2 powi j \<le> of_int n * u" by linarith
  then have "0 < of_int n * u" using two_powi_pos [of j] by linarith
  then have "round64 r = (if 2 powi (max_exponent + 1) \<le> of_int n * u then PosInf
                          else Num (of_int n * u))"
    using pos by (simp add: round64_def Let_def n_def u_def e_def)
  with v show ?thesis by blast
qed

lemma round64_overflow: "2 powi (max_exponent + 1) \<le> r \<Longrightarrow> round64 r = PosInf"
  using round64_lower [of "max_exponent + 1" r]
  by (auto simp: min_exponent_def max_exponent_def)

text \<open>A value with a significand of 53 bits is not changed.\<close>

lemma round64_exact:
  assumes "r = of_int n * 2 powi k" and "\<bar>n\<bar> < 2 ^ 53" and "min_exponent - 52 \<le> k"
    and "\<bar>r\<bar> < 2 powi (max_exponent + 1)"
  shows "round64 r = Num r"
proof (cases "r = 0")
  case True
  then show ?thesis by (simp add: round64_def)
next
  case False
  define e where "e = exponent64 r"
  define u :: real where "u = 2 powi (e - 52)"
  have "\<bar>real_of_int n\<bar> < 2 ^ 53"
    using assms(2) by (metis of_int_abs of_int_less_iff of_int_numeral of_int_power)
  then have "\<bar>r\<bar> < 2 ^ 53 * 2 powi k"
    using two_powi_pos [of k] by (simp add: assms(1) abs_mult)
  also have "\<dots> = 2 powi (53 + k)"
    using power_int_add [of "2::real" 53 k] by simp
  finally have "\<lfloor>log 2 \<bar>r\<bar>\<rfloor> < 53 + k" by (rule floor_log2_less [OF False])
  then have d: "0 \<le> k - (e - 52)"
    using assms(3) by (simp add: e_def exponent64_def)
  have "r / u = of_int n * (2 powi k / 2 powi (e - 52))" by (simp add: assms(1) u_def)
  also have "\<dots> = of_int n * of_int (2 ^ nat (k - (e - 52)))"
    using d by (simp only: two_powi_diff two_powi_nonneg_of_int)
  finally have q: "r / u = of_int (n * 2 ^ nat (k - (e - 52)))" by simp
  have u: "0 < u" by (simp add: u_def two_powi_pos)
  have "of_int (round_half_even (r / u)) * u = r / u * u"
    by (simp only: q round_half_even_of_int)
  also have "\<dots> = r" using u by simp
  finally have v: "of_int (round_half_even (r / u)) * u = r" .
  show ?thesis
    using False assms(4) v by (simp add: round64_def Let_def u_def e_def)
qed

lemma round64_of_int: "\<bar>n\<bar> < 2 ^ 53 \<Longrightarrow> round64 (of_int n) = Num (of_int n)"
proof -
  assume n: "\<bar>n\<bar> < 2 ^ 53"
  then have "\<bar>real_of_int n\<bar> < 2 ^ 53"
    by (metis of_int_abs of_int_less_iff of_int_numeral of_int_power)
  also have "(2::real) ^ 53 = 2 powi 53" by simp
  also have "\<dots> < 2 powi (max_exponent + 1)"
    by (simp only: two_powi_less_iff) (simp add: max_exponent_def)
  finally have "\<bar>real_of_int n\<bar> < 2 powi (max_exponent + 1)" .
  then show ?thesis
    using n by (intro round64_exact [of _ n 0]) (simp_all add: min_exponent_def)
qed


lemma round64_two_powi:
  "min_exponent - 52 \<le> k \<Longrightarrow> k \<le> max_exponent \<Longrightarrow> round64 (2 powi k) = Num (2 powi k)"
proof -
  assume k: "min_exponent - 52 \<le> k" "k \<le> max_exponent"
  have "\<bar>(2::real) powi k\<bar> < 2 powi (max_exponent + 1)"
    using k(2) two_powi_pos [of k] by (simp add: two_powi_less_iff)
  then show ?thesis
    using k(1) by (intro round64_exact [of _ 1 k]) simp_all
qed

section \<open>The sliding window\<close>

lemma push_shift_drop:
  assumes "length buf \<le> SAMPLING_TARGET"
  shows "push_shift buf s = drop (length buf + 1 - SAMPLING_TARGET) (buf @ [s])"
proof (cases "length buf = SAMPLING_TARGET")
  case True
  then have k: "length buf + 1 - SAMPLING_TARGET = Suc 0" by simp
  have "push_shift buf s = tl (buf @ [s])"
    using True by (simp add: push_shift_def Let_def)
  also have "\<dots> = drop (Suc 0) (buf @ [s])"
    by (simp only: drop_Suc drop_0)
  finally show ?thesis by (simp only: k)
next
  case False
  with assms have k: "length buf + 1 - SAMPLING_TARGET = 0" by simp
  have "push_shift buf s = buf @ [s]"
    using False assms by (simp add: push_shift_def Let_def)
  then show ?thesis by (simp only: k drop_0)
qed

lemma drop_then_append: "b \<le> length xs \<Longrightarrow> drop b xs @ ys = drop b (xs @ ys)"
  by simp

lemma push_shift_length:
  "length buf \<le> SAMPLING_TARGET \<Longrightarrow> length (push_shift buf s) \<le> SAMPLING_TARGET"
  by (auto simp: push_shift_def Let_def SAMPLING_TARGET_def)

lemma doPredictFromBuffer_buffer: "buffer (fst (doPredictFromBuffer st now)) = buffer st"
  by (auto simp: doPredictFromBuffer_def updateUI_def Let_def split: option.splits sum.splits)

lemma processSample_buffer:
  "buffer (fst (processSample st s now)) = push_shift (buffer st) s"
  using doPredictFromBuffer_buffer [of "st\<lparr>buffer := push_shift (buffer st) s\<rparr>" now]
  by (auto simp: processSample_def Let_def split: prod.splits)

lemma run_buffer:
  "length (buffer st) \<le> SAMPLING_TARGET \<Longrightarrow>
     buffer (run st evs) =
       drop (length (buffer st) + length evs - SAMPLING_TARGET) (buffer st @ map fst evs)"
proof (induction evs arbitrary: st)
  case Nil
  then show ?case by simp
next
  case (Cons ev evs)
  obtain s now where ev: "ev = (s, now)" by (cases ev)
  let ?st1 = "fst (processSample st s now)"
  have b1: "buffer ?st1 = drop (length (buffer st) + 1 - SAMPLING_TARGET) (buffer st @ [s])"
    using Cons.prems by (simp add: processSample_buffer push_shift_drop)
  have l1: "length (buffer ?st1) \<le> SAMPLING_TARGET"
    using Cons.prems by (simp add: processSample_buffer push_shift_length)
  have "buffer (run st (ev # evs)) = buffer (run ?st1 evs)"
    by (simp add: ev)
  also have "\<dots> = drop (length (buffer ?st1) + length evs - SAMPLING_TARGET)
                     (buffer ?st1 @ map fst evs)"
    by (rule Cons.IH [OF l1])
  also have "\<dots> = drop (length (buffer ?st1) + length evs - SAMPLING_TARGET)
                     (drop (length (buffer st) + 1 - SAMPLING_TARGET)
                        ((buffer st @ [s]) @ map fst evs))"
  proof -
    have "length (buffer st) + 1 - SAMPLING_TARGET \<le> length (buffer st @ [s])" by simp
    then have "drop (length (buffer st) + 1 - SAMPLING_TARGET) (buffer st @ [s]) @ map fst evs
        = drop (length (buffer st) + 1 - SAMPLING_TARGET) ((buffer st @ [s]) @ map fst evs)"
      by (rule drop_then_append)
    then show ?thesis by (simp only: b1)
  qed
  also have "\<dots> = drop (length (buffer ?st1) + length evs - SAMPLING_TARGET
                         + (length (buffer st) + 1 - SAMPLING_TARGET))
                     ((buffer st @ [s]) @ map fst evs)"
    by (simp only: drop_drop)
  also have "length (buffer ?st1) + length evs - SAMPLING_TARGET
               + (length (buffer st) + 1 - SAMPLING_TARGET)
             = length (buffer st) + length (ev # evs) - SAMPLING_TARGET"
    using Cons.prems by (simp add: b1)
  finally show ?case by (simp add: ev del: drop_append)
qed

text \<open>
  Claim C1. Whatever samples arrive, and whenever, the window never holds more than 200
  of them, and it holds the most recent ones in the order of their arrival: all of them
  while fewer than 200 have arrived, exactly the last 200 from then on.
\<close>

theorem window_holds_most_recent:
  "length (buffer (run (initial_state m p ls lg) evs)) \<le> 200
   \<and> length (buffer (run (initial_state m p ls lg) evs)) = min (length evs) 200
   \<and> buffer (run (initial_state m p ls lg) evs) = drop (length evs - 200) (map fst evs)"
  using run_buffer [of "initial_state m p ls lg" evs]
  by (auto simp: initial_state_def SAMPLING_TARGET_def)

section \<open>Feature extraction\<close>












lemma round64_one: "round64 1 = Num 1"
  using round64_of_int [of 1] by simp






section \<open>Standardisation of the features\<close>

lemma round64_not_NaN: "round64 r \<noteq> NaN"
  by (simp add: round64_def Let_def)

lemma epsilon_round64:
  "\<exists>e. epsilon round64 = Num e \<and> 2 powi (- 27) \<le> e \<and> e \<le> 2 powi (- 26)"
proof -
  have lo: "min_exponent \<le> - 27" "min_exponent \<le> - 26" and hi: "- 26 \<le> max_exponent"
    by (simp_all add: min_exponent_def max_exponent_def)
  have "\<bar>1 / 10 ^ 8 :: real\<bar> \<le> 2 powi (- 26)"
    by (simp add: power_int_minus)
  from round64_bounded [OF this lo(2) hi]
  obtain v where v: "round64 (1 / 10 ^ 8) = Num v" "\<bar>v\<bar> \<le> 2 powi (- 26)"
    by blast
  have "2 powi (- 27) \<le> (1 / 10 ^ 8 :: real)"
    by (simp add: power_int_minus)
  from round64_lower [OF this lo(1)]
  obtain v' where v': "2 powi (- 27) \<le> v'"
    "round64 (1 / 10 ^ 8) = (if 2 powi (max_exponent + 1) \<le> v' then PosInf else Num v')"
    by blast
  have "v' = v"
  proof (cases "2 powi (max_exponent + 1) \<le> v'")
    case True
    with v(1) v'(2) show ?thesis by simp
  next
    case False
    with v(1) v'(2) show ?thesis by simp
  qed
  with v v'(1) have "round64 (1 / 10 ^ 8) = Num v \<and> 2 powi (- 27) \<le> v \<and> v \<le> 2 powi (- 26)"
    by (simp only: abs_le_iff simp_thms)
  then show ?thesis unfolding epsilon_def by (rule exI)
qed

lemma standardize_loop_map:
  "i \<le> length features \<Longrightarrow>
   standardize_loop fl features mn sc i out =
     out @ map (\<lambda>j. js_div fl (js_sub fl (features ! j) (index_or mn j (Num 0)))
                                (index_or sc j (epsilon fl))) [i..<length features]"
proof (induction fl features mn sc i out rule: standardize_loop.induct)
  case (1 fl features mn sc i out)
  show ?case
  proof (cases "i < length features")
    case True
    then have "[i..<length features] = i # [i + 1..<length features]"
      by (simp add: upt_conv_Cons)
    with True "1.IH" show ?thesis
      by (subst standardize_loop.simps) simp
  next
    case False
    with "1.prems" show ?thesis
      by (subst standardize_loop.simps) simp
  qed
qed

lemma standardize_length: "length (standardize fl sp fs) = length fs"
  by (simp add: standardize_def Let_def standardize_loop_map)

lemma standardize_nth:
  "i < length fs \<Longrightarrow>
   standardize fl sp fs ! i =
     js_div fl (js_sub fl (fs ! i)
               (index_or (case sp of None \<Rightarrow> [] | Some p \<Rightarrow> scaler_mean p) i (Num 0)))
            (index_or (case sp of None \<Rightarrow> [] | Some p \<Rightarrow> scaler_scale p) i (epsilon fl))"
  by (simp add: standardize_def Let_def standardize_loop_map)

text \<open>
  Claim C4, as the script has it. For a feature vector and scaler arrays of seven finite
  numbers, entry \<open>i\<close> of the result is \<open>(feature[i] - mean[i]) / d\<close> in binary64, where the
  divisor \<open>d\<close> is \<open>scale[i]\<close> unless \<open>scale[i]\<close> is zero, and \<open>1e-8\<close> when it is: the
  guard is \<open>scale[i] || 1e-8\<close>, which replaces a zero and nothing else. The result is the
  quotient by \<open>max(scale[i], 1e-8)\<close> whenever \<open>scale[i]\<close> is zero or at least \<open>1e-8\<close>.
\<close>

theorem standardize_zero_guard:
  assumes "length fs = 7" and "length mn = 7" and "length sc = 7" and "i < 7"
  shows "length (standardize round64 (Some \<lparr>scaler_mean = map Num mn, scaler_scale = map Num sc\<rparr>)
                   (map Num fs)) = 7
    \<and> standardize round64 (Some \<lparr>scaler_mean = map Num mn, scaler_scale = map Num sc\<rparr>)
         (map Num fs) ! i
        = js_div round64 (js_sub round64 (Num (fs ! i)) (Num (mn ! i)))
            (if sc ! i = 0 then epsilon round64 else Num (sc ! i))
    \<and> (sc ! i = 0 \<or> \<not> js_gt (epsilon round64) (Num (sc ! i)) \<longrightarrow>
        standardize round64 (Some \<lparr>scaler_mean = map Num mn, scaler_scale = map Num sc\<rparr>)
          (map Num fs) ! i
          = js_div round64 (js_sub round64 (Num (fs ! i)) (Num (mn ! i)))
              (js_max (Num (sc ! i)) (epsilon round64)))"
proof -
  let ?out = "standardize round64 (Some \<lparr>scaler_mean = map Num mn, scaler_scale = map Num sc\<rparr>)
                (map Num fs)"
  obtain e where e: "epsilon round64 = Num e" "2 powi (- 27) \<le> e"
    using epsilon_round64 by blast
  have epos: "0 < e" using e(2) two_powi_pos [of "- 27"] by linarith
  have m: "index_or (map Num mn) i (Num 0) = Num (mn ! i)"
    using assms by (simp add: index_or_def)
  have s: "index_or (map Num sc) i (epsilon round64)
             = (if sc ! i = 0 then epsilon round64 else Num (sc ! i))"
    using assms by (simp add: index_or_def)
  have v: "?out ! i = js_div round64 (js_sub round64 (Num (fs ! i)) (Num (mn ! i)))
            (if sc ! i = 0 then epsilon round64 else Num (sc ! i))"
    using assms by (simp add: standardize_nth m s)
  have mx: "js_max (Num (sc ! i)) (epsilon round64)
              = (if sc ! i = 0 then epsilon round64 else Num (sc ! i))"
    if "sc ! i = 0 \<or> \<not> js_gt (epsilon round64) (Num (sc ! i))"
    using that epos by (auto simp: js_max_def e(1))
  show ?thesis
    using v mx assms by (simp add: standardize_length)
qed

text \<open>
  The amended claim C4 at a scaler whose first scale is zero.
\<close>

theorem standardize_zero_guard_witness:
  "length [1, 2, 3, 4, 5, 6, 7 :: real] = 7 \<and> length [0, 0, 0, 0, 0, 0, 1 :: real] = 7
   \<and> length [0, 2, 1, 1, 1, 1, 1 :: real] = 7 \<and> (0::nat) < 7
   \<and> standardize round64 (Some \<lparr>scaler_mean = map Num [0, 0, 0, 0, 0, 0, 1],
                            scaler_scale = map Num [0, 2, 1, 1, 1, 1, 1]\<rparr>)
         (map Num [1, 2, 3, 4, 5, 6, 7]) ! 0
       = js_div round64 (Num 1) (epsilon round64)"
  using standardize_zero_guard [of "[1, 2, 3, 4, 5, 6, 7]" "[0, 0, 0, 0, 0, 0, 1]"
      "[0, 2, 1, 1, 1, 1, 1]" 0]
  by (simp add: js_sub_def round64_one)

lemma nano_round64:
  "\<exists>n. round64 (1 / 10 ^ 9) = Num n \<and> 2 powi (- 30) \<le> n \<and> n \<le> 2 powi (- 29)"
proof -
  have lo: "min_exponent \<le> - 30" "min_exponent \<le> - 29" and hi: "- 29 \<le> max_exponent"
    by (simp_all add: min_exponent_def max_exponent_def)
  have "\<bar>1 / 10 ^ 9 :: real\<bar> \<le> 2 powi (- 29)"
    by (simp add: power_int_minus)
  from round64_bounded [OF this lo(2) hi]
  obtain v where v: "round64 (1 / 10 ^ 9) = Num v" "\<bar>v\<bar> \<le> 2 powi (- 29)"
    by blast
  have "2 powi (- 30) \<le> (1 / 10 ^ 9 :: real)"
    by (simp add: power_int_minus)
  from round64_lower [OF this lo(1)]
  obtain v' where v': "2 powi (- 30) \<le> v'"
    "round64 (1 / 10 ^ 9) = (if 2 powi (max_exponent + 1) \<le> v' then PosInf else Num v')"
    by blast
  have "v' = v"
  proof (cases "2 powi (max_exponent + 1) \<le> v'")
    case True
    with v(1) v'(2) show ?thesis by simp
  next
    case False
    with v(1) v'(2) show ?thesis by simp
  qed
  with v v'(1) have "round64 (1 / 10 ^ 9) = Num v \<and> 2 powi (- 30) \<le> v \<and> v \<le> 2 powi (- 29)"
    by (simp only: abs_le_iff simp_thms)
  then show ?thesis by (rule exI)
qed

text \<open>The quotient of 1 by a positive number that is at most \<open>2 ^ -29\<close>, and by one that is at least \<open>2 ^ -27\<close>.\<close>

lemma one_over_small:
  assumes "0 < n" and "n \<le> 2 powi (- 29)"
  shows "round64 (1 / n) = PosInf \<or> (\<exists>v. round64 (1 / n) = Num v \<and> 2 powi 29 \<le> v)"
proof -
  have "(2::real) powi 29 = 1 / 2 powi (- 29)"
    using two_powi_diff [of 0 "- 29"] by simp
  also have "\<dots> \<le> 1 / n"
    using assms by (intro divide_left_mono) (simp_all add: two_powi_pos)
  finally have "2 powi 29 \<le> 1 / n" .
  moreover have "min_exponent \<le> 29" by (simp add: min_exponent_def)
  ultimately obtain v where "2 powi 29 \<le> v"
    "round64 (1 / n) = (if 2 powi (max_exponent + 1) \<le> v then PosInf else Num v)"
    using round64_lower [of 29 "1 / n"] by blast
  then show ?thesis by (cases "2 powi (max_exponent + 1) \<le> v") simp_all
qed

lemma one_over_large:
  assumes "2 powi (- 27) \<le> e"
  shows "\<exists>v. round64 (1 / e) = Num v \<and> \<bar>v\<bar> \<le> 2 powi 27"
proof -
  have epos: "0 < e" using assms two_powi_pos [of "- 27"] by linarith
  have "1 / e \<le> 1 / 2 powi (- 27)"
    using assms by (intro divide_left_mono) (simp_all add: two_powi_pos)
  also have "\<dots> = (2::real) powi 27"
    using two_powi_diff [of 0 "- 27"] by simp
  finally have "\<bar>1 / e\<bar> \<le> 2 powi 27" using epos by simp
  moreover have "min_exponent \<le> 27" "27 \<le> max_exponent"
    by (simp_all add: min_exponent_def max_exponent_def)
  ultimately show ?thesis by (rule round64_bounded)
qed

text \<open>
  Claim C4 as stated fails for a scale between zero and \<open>1e-8\<close>: with
  \<open>scale[0] = 1e-9\<close> the larger of the scale and \<open>1e-8\<close> is \<open>1e-8\<close>, and the script does
  not divide by it: it divides by \<open>1e-9\<close>.
\<close>

theorem standardize_small_scale_counterexample:
  "js_max (round64 (1 / 10 ^ 9)) (epsilon round64) = epsilon round64
   \<and> standardize round64
       (Some \<lparr>scaler_mean = [Num 0, Num 0, Num 0, Num 0, Num 0, Num 0, Num 0],
              scaler_scale = [round64 (1 / 10 ^ 9), Num 1, Num 1, Num 1, Num 1, Num 1, Num 1]\<rparr>)
       [Num 1, Num 1, Num 1, Num 1, Num 1, Num 1, Num 1] ! 0
     \<noteq> js_div round64 (js_sub round64 (Num 1) (Num 0))
         (js_max (round64 (1 / 10 ^ 9)) (epsilon round64))"
proof -
  obtain e where e: "epsilon round64 = Num e" "2 powi (- 27) \<le> e"
    using epsilon_round64 by blast
  obtain n where n: "round64 (1 / 10 ^ 9) = Num n" "2 powi (- 30) \<le> n" "n \<le> 2 powi (- 29)"
    using nano_round64 by blast
  have npos: "0 < n" using n(2) two_powi_pos [of "- 30"] by linarith
  have "(2::real) powi (- 29) < 2 powi (- 27)" by (simp only: two_powi_less_iff)
  with n(3) e(2) have ne: "n < e" by linarith
  have mx: "js_max (round64 (1 / 10 ^ 9)) (epsilon round64) = epsilon round64"
    unfolding n(1) e(1) using ne by (simp add: js_max_def)
  have sub: "js_sub round64 (Num 1) (Num 0) = Num 1"
    by (simp add: js_sub_def round64_one)
  have out: "standardize round64
       (Some \<lparr>scaler_mean = [Num 0, Num 0, Num 0, Num 0, Num 0, Num 0, Num 0],
              scaler_scale = [round64 (1 / 10 ^ 9), Num 1, Num 1, Num 1, Num 1, Num 1, Num 1]\<rparr>)
       [Num 1, Num 1, Num 1, Num 1, Num 1, Num 1, Num 1] ! 0 = round64 (1 / n)"
    unfolding n(1) using npos by (simp add: standardize_nth index_or_def sub)
  have claimed: "js_div round64 (js_sub round64 (Num 1) (Num 0))
         (js_max (round64 (1 / 10 ^ 9)) (epsilon round64)) = round64 (1 / e)"
  proof -
    have "js_div round64 (js_sub round64 (Num 1) (Num 0))
         (js_max (round64 (1 / 10 ^ 9)) (epsilon round64)) = js_div round64 (Num 1) (Num e)"
      by (subst mx, subst sub, subst e(1), rule refl)
    also have "\<dots> = round64 (1 / e)" using npos ne by simp
    finally show ?thesis .
  qed
  obtain v where v: "round64 (1 / e) = Num v" "\<bar>v\<bar> \<le> 2 powi 27"
    using one_over_large [OF e(2)] by blast
  have "(2::real) powi 27 < 2 powi 29" by (simp only: two_powi_less_iff)
  with v(2) have "v < 2 powi 29" by linarith
  with one_over_small [OF npos n(3)] v(1) have neq: "round64 (1 / n) \<noteq> round64 (1 / e)"
    by auto
  show ?thesis
  proof (intro conjI)
    show "js_max (round64 (1 / 10 ^ 9)) (epsilon round64) = epsilon round64" by (fact mx)
    show "standardize round64
       (Some \<lparr>scaler_mean = [Num 0, Num 0, Num 0, Num 0, Num 0, Num 0, Num 0],
              scaler_scale = [round64 (1 / 10 ^ 9), Num 1, Num 1, Num 1, Num 1, Num 1, Num 1]\<rparr>)
       [Num 1, Num 1, Num 1, Num 1, Num 1, Num 1, Num 1] ! 0
     \<noteq> js_div round64 (js_sub round64 (Num 1) (Num 0))
         (js_max (round64 (1 / 10 ^ 9)) (epsilon round64))"
      unfolding out claimed by (fact neq)
  qed
qed

lemma js_div_not_NaN:
  assumes "p \<noteq> NaN" and "d \<noteq> 0"
  shows "js_div round64 p (Num d) \<noteq> NaN"
  using assms by (cases p) (simp_all add: round64_not_NaN)

lemma js_sub_Num: "js_sub round64 (Num f) (Num m) = round64 (f - m)"
  by (simp add: js_sub_def)

text \<open>
  Claim C9, as the script has it. Where \<open>scale[i]\<close> is zero, the feature finite and the mean
  finite or missing, the divisor of entry \<open>i\<close> is the literal \<open>1e-8\<close>, which is not zero: the
  entry is the binary64 quotient of \<open>feature[i] - mean[i]\<close> by \<open>1e-8\<close> and never \<open>NaN\<close>. It
  is a finite number whenever \<open>feature[i] - mean[i]\<close> is at most \<open>1e298\<close> in absolute value;
  beyond the range of binary64 the quotient is an infinity.
\<close>

theorem standardize_zero_scale:
  assumes "i < length fs" and "fs ! i = Num f"
    and "i < length (scaler_scale p)" and "scaler_scale p ! i = Num 0"
    and "index_or (scaler_mean p) i (Num 0) = Num m"
  shows "index_or (scaler_scale p) i (epsilon round64) = epsilon round64
     \<and> truthy (epsilon round64)
     \<and> standardize round64 (Some p) fs ! i
         = js_div round64 (js_sub round64 (Num f) (Num m)) (epsilon round64)
     \<and> standardize round64 (Some p) fs ! i \<noteq> NaN
     \<and> (\<bar>f - m\<bar> \<le> 10 ^ 298 \<longrightarrow> is_finite (standardize round64 (Some p) fs ! i))"
proof -
  obtain e where e: "epsilon round64 = Num e" "2 powi (- 27) \<le> e"
    using epsilon_round64 by blast
  have epos: "0 < e" using e(2) two_powi_pos [of "- 27"] by linarith
  have s: "index_or (scaler_scale p) i (epsilon round64) = epsilon round64"
    using assms(3,4) by (simp add: index_or_def)
  have t: "truthy (epsilon round64)" using epos by (simp add: e(1))
  have out: "standardize round64 (Some p) fs ! i
         = js_div round64 (js_sub round64 (Num f) (Num m)) (epsilon round64)"
    using assms(1) by (simp add: standardize_nth assms(2,5) s)
  have nn: "standardize round64 (Some p) fs ! i \<noteq> NaN"
    unfolding out e(1) js_sub_Num using epos by (intro js_div_not_NaN round64_not_NaN) simp
  have fin: "is_finite (standardize round64 (Some p) fs ! i)" if b: "\<bar>f - m\<bar> \<le> 10 ^ 298"
  proof -
    have "(10::real) ^ 298 \<le> 2 ^ 990" by simp
    also have "\<dots> = 2 powi 990" by (simp only: power_int_numeral)
    finally have "\<bar>f - m\<bar> \<le> 2 powi 990" using b by linarith
    moreover have "min_exponent \<le> 990" "990 \<le> max_exponent"
      by (simp_all add: min_exponent_def max_exponent_def)
    ultimately obtain a where a: "round64 (f - m) = Num a" "\<bar>a\<bar> \<le> 2 powi 990"
      using round64_bounded [of "f - m" 990] by blast
    have "\<bar>a / e\<bar> = \<bar>a\<bar> / e" using epos by simp
    also have "\<dots> \<le> 2 powi 990 / e"
      using a(2) epos by (simp add: divide_right_mono)
    also have "\<dots> \<le> 2 powi 990 / 2 powi (- 27)"
      using e(2) by (intro divide_left_mono) (simp_all add: two_powi_pos)
    also have "\<dots> = 2 powi 1017"
      using two_powi_diff [of 990 "- 27"] by simp
    finally have "\<bar>a / e\<bar> \<le> 2 powi 1017" .
    moreover have "min_exponent \<le> 1017" "1017 \<le> max_exponent"
      by (simp_all add: min_exponent_def max_exponent_def)
    ultimately obtain q where q: "round64 (a / e) = Num q"
      using round64_bounded [of "a / e" 1017] by blast
    show ?thesis
      unfolding out e(1) js_sub_Num a(1) using epos by (simp add: q)
  qed
  from s t out nn fin show ?thesis by blast
qed

text \<open>
  The amended claim C9 at a scaler whose first scale is zero.
\<close>

theorem standardize_zero_scale_witness:
  "(0::nat) < length [Num 3, Num 1] \<and> [Num 3, Num 1] ! 0 = Num 3
   \<and> 0 < length (scaler_scale \<lparr>scaler_mean = [Num 1, Num 1], scaler_scale = [Num 0, Num 2]\<rparr>)
   \<and> scaler_scale \<lparr>scaler_mean = [Num 1, Num 1], scaler_scale = [Num 0, Num 2]\<rparr> ! 0 = Num 0
   \<and> index_or (scaler_mean \<lparr>scaler_mean = [Num 1, Num 1], scaler_scale = [Num 0, Num 2]\<rparr>) 0 (Num 0)
       = Num 1
   \<and> \<bar>3 - 1 :: real\<bar> \<le> 10 ^ 298
   \<and> is_finite (standardize round64
         (Some \<lparr>scaler_mean = [Num 1, Num 1], scaler_scale = [Num 0, Num 2]\<rparr>) [Num 3, Num 1] ! 0)"
proof -
  let ?p = "\<lparr>scaler_mean = [Num 1, Num 1], scaler_scale = [Num 0, Num 2]\<rparr>"
  have h: "(0::nat) < length [Num 3, Num 1]" "[Num 3, Num 1] ! 0 = Num 3"
    "0 < length (scaler_scale ?p)" "scaler_scale ?p ! 0 = Num 0"
    "index_or (scaler_mean ?p) 0 (Num 0) = Num 1"
    by (simp_all add: index_or_def)
  have b: "\<bar>3 - 1 :: real\<bar> \<le> 10 ^ 298" by simp
  from standardize_zero_scale [OF h] b
  have "is_finite (standardize round64 (Some ?p) [Num 3, Num 1] ! 0)" by blast
  with h b show ?thesis by blast
qed

lemma quotient_overflow:
  assumes "round64 M = Num M" and "0 < e" and "e \<le> 2 powi (- 26)"
    and "2 powi (max_exponent + 1) \<le> 2 * M"
  shows "js_div round64 (round64 M) (Num e) = PosInf"
proof -
  have "(2::real) powi (- 26) \<le> 2 powi (- 1)" by (simp only: two_powi_le_iff)
  then have "e \<le> 1 / 2" using assms(3) by simp
  then have "2 \<le> 1 / e" using assms(2) by (simp add: field_simps)
  moreover have M: "0 < M" using assms(4) two_powi_pos [of "max_exponent + 1"] by linarith
  ultimately have "2 * M \<le> (1 / e) * M" by (intro mult_right_mono) simp_all
  then have "2 powi (max_exponent + 1) \<le> M / e" using assms(4) by simp
  then have "round64 (M / e) = PosInf" by (rule round64_overflow)
  then show ?thesis using assms(1,2) by simp
qed

text \<open>
  Claim C9 as stated fails by overflow: with all scales zero and a first feature of
  \<open>2 ^ 1023\<close>, a finite number, the first entry of the result is \<open>Infinity\<close>.
\<close>

theorem standardize_zero_scale_overflow_counterexample:
  "standardize round64
     (Some \<lparr>scaler_mean = [Num 0, Num 0, Num 0, Num 0, Num 0, Num 0, Num 0],
            scaler_scale = [Num 0, Num 0, Num 0, Num 0, Num 0, Num 0, Num 0]\<rparr>)
     [Num (2 ^ 1023), Num 0, Num 0, Num 0, Num 0, Num 0, Num 0] ! 0 = PosInf"
proof -
  obtain e where e: "epsilon round64 = Num e" "2 powi (- 27) \<le> e" "e \<le> 2 powi (- 26)"
    using epsilon_round64 by blast
  have epos: "0 < e" using e(2) two_powi_pos [of "- 27"] by linarith
  have p: "(2::real) ^ 1023 = 2 powi 1023" by (simp only: power_int_numeral)
  have a: "round64 (2 powi 1023) = Num (2 powi 1023)"
    by (rule round64_two_powi) (simp_all add: min_exponent_def max_exponent_def)
  have "(2::real) powi (max_exponent + 1) = 2 powi 1 * 2 powi 1023"
    unfolding max_exponent_def by (subst power_int_add [symmetric]) simp_all
  then have b: "(2::real) powi (max_exponent + 1) \<le> 2 * 2 powi 1023" by simp
  have "standardize round64
     (Some \<lparr>scaler_mean = [Num 0, Num 0, Num 0, Num 0, Num 0, Num 0, Num 0],
            scaler_scale = [Num 0, Num 0, Num 0, Num 0, Num 0, Num 0, Num 0]\<rparr>)
     [Num (2 powi 1023), Num 0, Num 0, Num 0, Num 0, Num 0, Num 0] ! 0
     = js_div round64 (round64 (2 powi 1023)) (Num e)"
    by (simp add: standardize_nth index_or_def js_sub_def e(1) del: power_int_numeral)
  also have "\<dots> = PosInf" by (rule quotient_overflow [OF a epos e(3) b])
  finally show ?thesis unfolding p .
qed

section \<open>The calls of the pipeline\<close>

lemma doPredictFromBuffer_loaded:
  assumes "model st = Some m" and "scaler st = Some p" and "labels st = Some ls"
  shows "doPredictFromBuffer st now =
     (if now - lastPredTime st < 800 then (st, RateLimited)
      else case m (standardize round64 (Some p) (computeFeatures round64 (buffer st))) of
             Inl e \<Rightarrow>
               (st\<lparr>lastPredTime := now,
                   calls := calls st
                     @ [standardize round64 (Some p) (computeFeatures round64 (buffer st))],
                   logs := PredictionFailed\<rparr>, Caught e)
           | Inr probs \<Rightarrow>
               (st\<lparr>lastPredTime := now,
                   calls := calls st
                     @ [standardize round64 (Some p) (computeFeatures round64 (buffer st))],
                   shown := Some \<lparr>pred_label = label_or_unknown ls (argmax probs),
                                  pred_five = mapToFive (label_or_unknown ls (argmax probs)),
                                  pred_confidence = prob_at probs (argmax probs)\<rparr>\<rparr>,
                Predicted))"
  using assms by (simp add: doPredictFromBuffer_def Let_def updateUI_def split: sum.splits)

lemma doPredictFromBuffer_not_loaded:
  assumes "model st = None \<or> scaler st = None \<or> labels st = None"
  shows "doPredictFromBuffer st now =
     ((if 2000 < now - lastPredTime st
       then st\<lparr>logs := SkippingNotLoaded, lastPredTime := now\<rparr> else st), SkippedNotLoaded)"
  using assms by (auto simp: doPredictFromBuffer_def split: option.splits)

lemma push_shift_full:
  "length buf = 199 \<or> length buf = 200 \<Longrightarrow> length (push_shift buf s) = 200"
  by (auto simp: push_shift_def Let_def SAMPLING_TARGET_def)

lemma processSample_full:
  assumes "length (buffer st) = 199 \<or> length (buffer st) = 200"
  shows "processSample st s now =
     (fst (doPredictFromBuffer (st\<lparr>buffer := push_shift (buffer st) s\<rparr>) now),
      Some (snd (doPredictFromBuffer (st\<lparr>buffer := push_shift (buffer st) s\<rparr>) now)))"
  using push_shift_full [OF assms, of s]
  by (simp add: processSample_def Let_def SAMPLING_TARGET_def split: prod.splits)

lemma processSample_loaded:
  assumes "model st = Some m" and "scaler st = Some p" and "labels st = Some ls"
    and "length (buffer st) = 199 \<or> length (buffer st) = 200"
  shows "processSample st s now =
     (if now - lastPredTime st < 800
      then (st\<lparr>buffer := push_shift (buffer st) s\<rparr>, Some RateLimited)
      else case m (standardize round64 (Some p)
                     (computeFeatures round64 (push_shift (buffer st) s))) of
             Inl e \<Rightarrow>
               (st\<lparr>buffer := push_shift (buffer st) s, lastPredTime := now,
                   calls := calls st @ [standardize round64 (Some p)
                                          (computeFeatures round64 (push_shift (buffer st) s))],
                   logs := PredictionFailed\<rparr>, Some (Caught e))
           | Inr probs \<Rightarrow>
               (st\<lparr>buffer := push_shift (buffer st) s, lastPredTime := now,
                   calls := calls st @ [standardize round64 (Some p)
                                          (computeFeatures round64 (push_shift (buffer st) s))],
                   shown := Some \<lparr>pred_label = label_or_unknown ls (argmax probs),
                                  pred_five = mapToFive (label_or_unknown ls (argmax probs)),
                                  pred_confidence = prob_at probs (argmax probs)\<rparr>\<rparr>,
                Some Predicted))"
  using assms doPredictFromBuffer_loaded [of "st\<lparr>buffer := push_shift (buffer st) s\<rparr>" m p ls now]
  by (simp add: processSample_full split: sum.splits)

lemma filling_window_push: "push_shift filling_window resting = resting_window"
proof -
  have "replicate (Suc 199) resting = resting # replicate 199 resting"
    by (rule replicate_Suc)
  moreover have "Suc 199 = 200" by simp
  ultimately have "replicate 199 resting @ [resting] = replicate 200 resting"
    using replicate_append_same [of 199 resting] by simp
  then show ?thesis
    by (simp add: push_shift_def Let_def filling_window_def resting_window_def
          SAMPLING_TARGET_def)
qed

lemma filling_window_length: "length filling_window = 199"
  by (simp add: filling_window_def)

lemma computeFeatures_length: "length (computeFeatures fl buf) = 7"
  by (simp add: computeFeatures_def Let_def)

text \<open>
  Claim C5, as the script has it. \<open>standardize\<close> has no error: its result is as long as
  the feature vector whatever the scaler holds; each entry is the quotient the loop
  computes, an entry missing from \<open>mean\<close> being read as 0 and one missing from \<open>scale\<close> as
  \<open>1e-8\<close>, and with no scaler at all every feature is divided by \<open>1e-8\<close>. The pipeline does
  not reach it while the model, the scaler or the labels are missing:
  \<open>doPredictFromBuffer\<close> returns before, writing the notice to the status line when the
  last one is more than two seconds old.
\<close>

theorem standardize_never_fails:
  "length (standardize round64 sp fs) = length fs
   \<and> (i < length fs \<longrightarrow>
        standardize round64 None fs ! i
          = js_div round64 (js_sub round64 (fs ! i) (Num 0)) (epsilon round64)
        \<and> standardize round64 (Some p) fs ! i
          = js_div round64 (js_sub round64 (fs ! i) (index_or (scaler_mean p) i (Num 0)))
              (index_or (scaler_scale p) i (epsilon round64)))
   \<and> (length (scaler_mean p) \<le> i \<longrightarrow> index_or (scaler_mean p) i (Num 0) = Num 0)
   \<and> (length (scaler_scale p) \<le> i \<longrightarrow>
        index_or (scaler_scale p) i (epsilon round64) = epsilon round64)
   \<and> (model st = None \<or> scaler st = None \<or> labels st = None \<longrightarrow>
        doPredictFromBuffer st now =
          ((if 2000 < now - lastPredTime st
            then st\<lparr>logs := SkippingNotLoaded, lastPredTime := now\<rparr> else st),
           SkippedNotLoaded))"
  using doPredictFromBuffer_not_loaded [of st now]
  by (simp add: standardize_length standardize_nth index_or_def)

text \<open>
  The amended claim C5 on a scaler of three entries and a pipeline without its labels.
\<close>

theorem standardize_never_fails_witness:
  "(5::nat) < length [Num 1, Num 2, Num 3, Num 4, Num 5, Num 6, Num 7]
   \<and> length (scaler_mean \<lparr>scaler_mean = [Num 1, Num 1, Num 1],
                           scaler_scale = [Num 2, Num 2, Num 2]\<rparr>) \<le> 5
   \<and> length (scaler_scale \<lparr>scaler_mean = [Num 1, Num 1, Num 1],
                            scaler_scale = [Num 2, Num 2, Num 2]\<rparr>) \<le> 5
   \<and> labels \<lparr>model = Some fixed_model,
              scaler = Some \<lparr>scaler_mean = [Num 1, Num 1, Num 1],
                             scaler_scale = [Num 2, Num 2, Num 2]\<rparr>,
              labels = None, buffer = filling_window, lastPredTime = 0, logs = LoadFailed,
              shown = None, calls = []\<rparr> = None
   \<and> standardize round64 (Some \<lparr>scaler_mean = [Num 1, Num 1, Num 1],
                                  scaler_scale = [Num 2, Num 2, Num 2]\<rparr>)
         [Num 1, Num 2, Num 3, Num 4, Num 5, Num 6, Num 7] ! 5
       = js_div round64 (js_sub round64 (Num 6) (Num 0)) (epsilon round64)
   \<and> snd (doPredictFromBuffer
         \<lparr>model = Some fixed_model,
          scaler = Some \<lparr>scaler_mean = [Num 1, Num 1, Num 1],
                         scaler_scale = [Num 2, Num 2, Num 2]\<rparr>,
          labels = None, buffer = filling_window, lastPredTime = 0, logs = LoadFailed,
          shown = None, calls = []\<rparr> 5000) = SkippedNotLoaded"
  using standardize_never_fails
    [of "Some \<lparr>scaler_mean = [Num 1, Num 1, Num 1], scaler_scale = [Num 2, Num 2, Num 2]\<rparr>"
        "[Num 1, Num 2, Num 3, Num 4, Num 5, Num 6, Num 7]" 5
        "\<lparr>scaler_mean = [Num 1, Num 1, Num 1], scaler_scale = [Num 2, Num 2, Num 2]\<rparr>"
        "\<lparr>model = Some fixed_model,
          scaler = Some \<lparr>scaler_mean = [Num 1, Num 1, Num 1],
                         scaler_scale = [Num 2, Num 2, Num 2]\<rparr>,
          labels = None, buffer = filling_window, lastPredTime = 0, logs = LoadFailed,
          shown = None, calls = []\<rparr>" 5000]
  by simp

text \<open>
  Claim C5 as stated fails. With no scaler loaded the sample that fills the window is
  buffered and the inference skipped, with a notice and no error; with a scaler of three
  entries the same sample is classified, from a vector of seven standardised features.
\<close>

theorem no_scaler_error_counterexample:
  "processSample
     \<lparr>model = Some fixed_model, scaler = None, labels = None, buffer = filling_window,
      lastPredTime = 0, logs = LoadFailed, shown = None, calls = []\<rparr> resting 5000
   = (\<lparr>model = Some fixed_model, scaler = None, labels = None, buffer = resting_window,
       lastPredTime = 5000, logs = SkippingNotLoaded, shown = None, calls = []\<rparr>,
      Some SkippedNotLoaded)
   \<and> snd (processSample
         \<lparr>model = Some fixed_model,
          scaler = Some \<lparr>scaler_mean = [Num 1, Num 1, Num 1],
                         scaler_scale = [Num 2, Num 2, Num 2]\<rparr>,
          labels = Some [''Walking'', ''Jogging'', ''Sitting''], buffer = filling_window,
          lastPredTime = 0, logs = ModelReady, shown = None, calls = []\<rparr> resting 5000)
       = Some Predicted
   \<and> map length (calls (fst (processSample
         \<lparr>model = Some fixed_model,
          scaler = Some \<lparr>scaler_mean = [Num 1, Num 1, Num 1],
                         scaler_scale = [Num 2, Num 2, Num 2]\<rparr>,
          labels = Some [''Walking'', ''Jogging'', ''Sitting''], buffer = filling_window,
          lastPredTime = 0, logs = ModelReady, shown = None, calls = []\<rparr> resting 5000)))
       = [7]"
proof -
  have a: "processSample
     \<lparr>model = Some fixed_model, scaler = None, labels = None, buffer = filling_window,
      lastPredTime = 0, logs = LoadFailed, shown = None, calls = []\<rparr> resting 5000
   = (\<lparr>model = Some fixed_model, scaler = None, labels = None, buffer = resting_window,
       lastPredTime = 5000, logs = SkippingNotLoaded, shown = None, calls = []\<rparr>,
      Some SkippedNotLoaded)"
    by (simp add: processSample_full filling_window_length filling_window_push
          doPredictFromBuffer_not_loaded)
  let ?st = "\<lparr>model = Some fixed_model,
          scaler = Some \<lparr>scaler_mean = [Num 1, Num 1, Num 1],
                         scaler_scale = [Num 2, Num 2, Num 2]\<rparr>,
          labels = Some [''Walking'', ''Jogging'', ''Sitting''], buffer = filling_window,
          lastPredTime = 0, logs = ModelReady, shown = None, calls = []\<rparr>"
  have b: "snd (processSample ?st resting 5000) = Some Predicted
     \<and> map length (calls (fst (processSample ?st resting 5000))) = [7]"
    using processSample_loaded [of ?st fixed_model
        "\<lparr>scaler_mean = [Num 1, Num 1, Num 1], scaler_scale = [Num 2, Num 2, Num 2]\<rparr>"
        "[''Walking'', ''Jogging'', ''Sitting'']" resting 5000]
    by (simp add: filling_window_length fixed_model_def standardize_length
          computeFeatures_length)
  from a b show ?thesis by (simp only: simp_thms)
qed

lemma processSample_loaded_fields:
  assumes "model st = Some m" and "scaler st = Some p" and "labels st = Some ls"
    and "length (buffer st) = 199 \<or> length (buffer st) = 200"
  shows "model (fst (processSample st s now)) = Some m"
    and "scaler (fst (processSample st s now)) = Some p"
    and "labels (fst (processSample st s now)) = Some ls"
    and "buffer (fst (processSample st s now)) = push_shift (buffer st) s"
    and "length (buffer (fst (processSample st s now))) = 200"
    and "lastPredTime (fst (processSample st s now))
           = (if 800 \<le> now - lastPredTime st then now else lastPredTime st)"
    and "calls (fst (processSample st s now))
           = (if 800 \<le> now - lastPredTime st
              then calls st @ [standardize round64 (Some p)
                                (computeFeatures round64 (push_shift (buffer st) s))]
              else calls st)"
  using assms push_shift_full [OF assms(4), of s]
  by (simp_all add: processSample_loaded split: sum.splits)

section \<open>Rate limiting\<close>

text \<open>
  Claim C3, as the script has it. With the three assets loaded and a sample arriving on a
  window that it fills, the classifier is called, on the standardised features of that
  window, exactly when at least 800 ms have passed since \<open>lastPredTime\<close>, which then
  becomes the time of the arrival, and what the classifier returns is displayed. Otherwise
  the sample is buffered and nothing else changes. Of two such arrivals 100 ms apart at
  most one calls the classifier; when the first one does, the second does not, and a second
  one 900 ms after it does.
\<close>

theorem inference_rate_limited:
  assumes "model st = Some m" and "scaler st = Some p" and "labels st = Some ls"
    and "length (buffer st) = 199 \<or> length (buffer st) = 200"
  shows "calls (fst (processSample st s now))
           = (if 800 \<le> now - lastPredTime st
              then calls st @ [standardize round64 (Some p)
                                (computeFeatures round64 (push_shift (buffer st) s))]
              else calls st)
     \<and> lastPredTime (fst (processSample st s now))
           = (if 800 \<le> now - lastPredTime st then now else lastPredTime st)
     \<and> buffer (fst (processSample st s now)) = push_shift (buffer st) s
     \<and> length (buffer (fst (processSample st s now))) = 200
     \<and> (now - lastPredTime st < 800 \<longrightarrow>
          processSample st s now = (st\<lparr>buffer := push_shift (buffer st) s\<rparr>, Some RateLimited))
     \<and> (800 \<le> now - lastPredTime st
          \<and> m (standardize round64 (Some p) (computeFeatures round64 (push_shift (buffer st) s)))
              = Inr probs \<longrightarrow>
          shown (fst (processSample st s now))
            = Some \<lparr>pred_label = label_or_unknown ls (argmax probs),
                    pred_five = mapToFive (label_or_unknown ls (argmax probs)),
                    pred_confidence = prob_at probs (argmax probs)\<rparr>)
     \<and> (800 \<le> now - lastPredTime st \<longrightarrow>
          calls (fst (processSample (fst (processSample st s now)) s' (now + 100)))
            = calls st @ [standardize round64 (Some p)
                            (computeFeatures round64 (push_shift (buffer st) s))]
          \<and> calls (fst (processSample (fst (processSample st s now)) s' (now + 900)))
            = calls st @ [standardize round64 (Some p)
                            (computeFeatures round64 (push_shift (buffer st) s)),
                          standardize round64 (Some p)
                            (computeFeatures round64 (push_shift (push_shift (buffer st) s) s'))])
     \<and> length (calls (fst (processSample (fst (processSample st s now)) s' (now + 100))))
           \<le> length (calls st) + 1"
proof -
  let ?st1 = "fst (processSample st s now)"
  note f = processSample_loaded_fields [OF assms, of s now]
  have full1: "length (buffer ?st1) = 199 \<or> length (buffer ?st1) = 200"
    using f(5) by simp
  note g = processSample_loaded_fields [OF f(1) f(2) f(3) full1, of s']
  have rl: "processSample st s now = (st\<lparr>buffer := push_shift (buffer st) s\<rparr>, Some RateLimited)"
    if "now - lastPredTime st < 800"
    using that by (simp add: processSample_loaded [OF assms])
  have sh: "shown ?st1
            = Some \<lparr>pred_label = label_or_unknown ls (argmax probs),
                    pred_five = mapToFive (label_or_unknown ls (argmax probs)),
                    pred_confidence = prob_at probs (argmax probs)\<rparr>"
    if "800 \<le> now - lastPredTime st"
      "m (standardize round64 (Some p) (computeFeatures round64 (push_shift (buffer st) s)))
         = Inr probs"
    using that by (simp add: processSample_loaded [OF assms])
  have two: "calls (fst (processSample ?st1 s' (now + 100)))
            = calls st @ [standardize round64 (Some p)
                            (computeFeatures round64 (push_shift (buffer st) s))]
          \<and> calls (fst (processSample ?st1 s' (now + 900)))
            = calls st @ [standardize round64 (Some p)
                            (computeFeatures round64 (push_shift (buffer st) s)),
                          standardize round64 (Some p)
                            (computeFeatures round64 (push_shift (push_shift (buffer st) s) s'))]"
    if "800 \<le> now - lastPredTime st"
    using that by (simp add: g(7) f(4) f(6) f(7))
  have most: "length (calls (fst (processSample ?st1 s' (now + 100)))) \<le> length (calls st) + 1"
    by (simp add: g(7) f(6) f(7))
  from f(7) f(6) f(4) f(5) rl sh two most show ?thesis by blast
qed

lemma fresh_fields:
  "model (fresh m) = Some m" "scaler (fresh m) = Some unit_scaler"
  "labels (fresh m) = Some [''Walking'', ''Jogging'', ''Sitting'']"
  "length (buffer (fresh m)) = 199 \<or> length (buffer (fresh m)) = 200"
  "lastPredTime (fresh m) = 0" "calls (fresh m) = []" "buffer (fresh m) = filling_window"
  "logs (fresh m) = ModelReady" "shown (fresh m) = None"
  by (simp_all add: fresh_def filling_window_length)

text \<open>
  The amended claim C3 on the arrival that fills the window, at time 1000.
\<close>

theorem inference_rate_limited_witness:
  "model (fresh fixed_model) = Some fixed_model
   \<and> scaler (fresh fixed_model) = Some unit_scaler
   \<and> labels (fresh fixed_model) = Some [''Walking'', ''Jogging'', ''Sitting'']
   \<and> length (buffer (fresh fixed_model)) = 199
   \<and> (800::int) \<le> 1000 - lastPredTime (fresh fixed_model)
   \<and> fixed_model (standardize round64 (Some unit_scaler)
         (computeFeatures round64 (push_shift (buffer (fresh fixed_model)) resting)))
       = Inr [Num (1 / 10), Num (7 / 10), Num (1 / 5)]
   \<and> calls (fst (processSample (fresh fixed_model) resting 1000))
       = [standardize round64 (Some unit_scaler) (computeFeatures round64 resting_window)]
   \<and> lastPredTime (fst (processSample (fresh fixed_model) resting 1000)) = 1000
   \<and> shown (fst (processSample (fresh fixed_model) resting 1000))
       = Some \<lparr>pred_label = ''Jogging'', pred_five = 5, pred_confidence = Num (7 / 10)\<rparr>
   \<and> length (calls (fst (processSample (fst (processSample (fresh fixed_model) resting 1000))
                       resting 1100))) = 1
   \<and> length (calls (fst (processSample (fst (processSample (fresh fixed_model) resting 1000))
                       resting 1900))) = 2"
proof -
  have am: "argmax [Num (1 / 10), Num (7 / 10), Num (1 / 5)] = 1"
    by (simp add: argmax_def argmax_loop.simps)
  have five: "mapToFive ''Jogging'' = 5" by code_simp
  have fm: "fixed_model v = Inr [Num (1 / 10), Num (7 / 10), Num (1 / 5)]" for v
    by (simp add: fixed_model_def)
  have q: "(800::int) \<le> 1000 - lastPredTime (fresh fixed_model)"
    by (simp add: fresh_fields)
  have pre: "fixed_model (standardize round64 (Some unit_scaler)
         (computeFeatures round64 (push_shift (buffer (fresh fixed_model)) resting)))
       = Inr [Num (1 / 10), Num (7 / 10), Num (1 / 5)]"
    by (rule fm)
  note T = inference_rate_limited [OF fresh_fields(1-4), of fixed_model resting 1000
      "[Num (1 / 10), Num (7 / 10), Num (1 / 5)]" resting]
  have c: "calls (fst (processSample (fresh fixed_model) resting 1000))
       = [standardize round64 (Some unit_scaler) (computeFeatures round64 resting_window)]"
    using T [THEN conjunct1] q by (simp add: fresh_fields filling_window_push)
  have t: "lastPredTime (fst (processSample (fresh fixed_model) resting 1000)) = 1000"
    using T [THEN conjunct2, THEN conjunct1] q by simp
  note T5 = T [THEN conjunct2, THEN conjunct2, THEN conjunct2, THEN conjunct2, THEN conjunct2]
  have sh: "shown (fst (processSample (fresh fixed_model) resting 1000))
       = Some \<lparr>pred_label = ''Jogging'', pred_five = 5, pred_confidence = Num (7 / 10)\<rparr>"
    using T5 [THEN conjunct1, THEN mp, OF conjI, OF q pre]
    by (simp add: am five label_or_unknown_def prob_at_def)
  note T6 = T5 [THEN conjunct2, THEN conjunct1, THEN mp, OF q]
  have one: "length (calls (fst (processSample (fst (processSample (fresh fixed_model) resting 1000))
                       resting 1100))) = 1"
    using T6 [THEN conjunct1] by (simp add: fresh_fields)
  have two: "length (calls (fst (processSample (fst (processSample (fresh fixed_model) resting 1000))
                       resting 1900))) = 2"
    using T6 [THEN conjunct2] by (simp add: fresh_fields)
  have l: "length (buffer (fresh fixed_model)) = 199"
    by (simp add: fresh_fields filling_window_length)
  from fresh_fields(1-3) l q pre c t sh one two show ?thesis by blast
qed

text \<open>
  Claim C3 as stated fails for two arrivals on a full window of which the first comes less
  than 800 ms after an inference. After the inference of time 950, the arrivals of 1000 and
  1900, 900 ms apart, call the classifier once, not twice; those of 1000 and 1100, 100 ms
  apart, do not call it at all.
\<close>

theorem second_arrival_only_counterexample:
  "length (calls (fst (processSample (fresh fixed_model) resting 950))) = 1
   \<and> length (calls (fst (processSample
         (fst (processSample (fst (processSample (fresh fixed_model) resting 950)) resting 1000))
         resting 1900))) = 2
   \<and> length (calls (fst (processSample
         (fst (processSample (fst (processSample (fresh fixed_model) resting 950)) resting 1000))
         resting 1100))) = 1"
proof -
  let ?s1 = "fst (processSample (fresh fixed_model) resting 950)"
  let ?s2 = "fst (processSample ?s1 resting 1000)"
  note a = processSample_loaded_fields [OF fresh_fields(1-4), of fixed_model resting 950]
  have full1: "length (buffer ?s1) = 199 \<or> length (buffer ?s1) = 200" using a(5) by simp
  note b = processSample_loaded_fields [OF a(1) a(2) a(3) full1, of resting 1000]
  have full2: "length (buffer ?s2) = 199 \<or> length (buffer ?s2) = 200" using b(5) by simp
  note c = processSample_loaded_fields [OF b(1) b(2) b(3) full2, of resting]
  have l1: "lastPredTime ?s1 = 950" "length (calls ?s1) = 1"
    by (simp_all add: a(6) a(7) fresh_fields)
  have l2: "lastPredTime ?s2 = 950" "length (calls ?s2) = 1"
    by (simp_all add: b(6) b(7) l1)
  show ?thesis
    by (simp add: c(7) l1 l2)
qed

section \<open>Failure of an inference\<close>

text \<open>
  Claim C8, as the script has it. With the assets loaded, on the arrival that fills the
  window and passes the rate limit: when the classifier throws, the error is caught, the
  status line shows the prediction-error message, and nothing else changes but
  \<open>lastPredTime\<close> and the buffer, which holds the new sample; an arrival at least 800 ms
  later calls the classifier again, on the window of that moment. An output that is
  returned is displayed as a prediction, whatever array it is, and the status line keeps
  its text.
\<close>

theorem failed_inference_handling:
  assumes "model st = Some m" and "scaler st = Some p" and "labels st = Some ls"
    and "length (buffer st) = 199 \<or> length (buffer st) = 200"
    and "800 \<le> now - lastPredTime st"
  shows "(m (standardize round64 (Some p) (computeFeatures round64 (push_shift (buffer st) s)))
            = Inl e \<longrightarrow>
          processSample st s now =
            (st\<lparr>buffer := push_shift (buffer st) s, lastPredTime := now,
                calls := calls st @ [standardize round64 (Some p)
                                       (computeFeatures round64 (push_shift (buffer st) s))],
                logs := PredictionFailed\<rparr>, Some (Caught e))
          \<and> (800 \<le> t - now \<longrightarrow>
               calls (fst (processSample (fst (processSample st s now)) s' t))
                 = calls st @ [standardize round64 (Some p)
                                 (computeFeatures round64 (push_shift (buffer st) s)),
                               standardize round64 (Some p)
                                 (computeFeatures round64
                                    (push_shift (push_shift (buffer st) s) s'))]))
     \<and> (m (standardize round64 (Some p) (computeFeatures round64 (push_shift (buffer st) s)))
            = Inr probs \<longrightarrow>
          processSample st s now =
            (st\<lparr>buffer := push_shift (buffer st) s, lastPredTime := now,
                calls := calls st @ [standardize round64 (Some p)
                                       (computeFeatures round64 (push_shift (buffer st) s))],
                shown := Some \<lparr>pred_label = label_or_unknown ls (argmax probs),
                               pred_five = mapToFive (label_or_unknown ls (argmax probs)),
                               pred_confidence = prob_at probs (argmax probs)\<rparr>\<rparr>,
             Some Predicted))"
proof -
  let ?st1 = "fst (processSample st s now)"
  note f = processSample_loaded_fields [OF assms(1-4), of s now]
  have full1: "length (buffer ?st1) = 199 \<or> length (buffer ?st1) = 200"
    using f(5) by simp
  note g = processSample_loaded_fields [OF f(1) f(2) f(3) full1, of s' t]
  have again: "calls (fst (processSample ?st1 s' t))
                 = calls st @ [standardize round64 (Some p)
                                 (computeFeatures round64 (push_shift (buffer st) s)),
                               standardize round64 (Some p)
                                 (computeFeatures round64
                                    (push_shift (push_shift (buffer st) s) s'))]"
    if "800 \<le> t - now"
    using that assms(5) by (simp add: g(7) f(4) f(6) f(7))
  have thrown: "processSample st s now =
            (st\<lparr>buffer := push_shift (buffer st) s, lastPredTime := now,
                calls := calls st @ [standardize round64 (Some p)
                                       (computeFeatures round64 (push_shift (buffer st) s))],
                logs := PredictionFailed\<rparr>, Some (Caught e))"
    if "m (standardize round64 (Some p) (computeFeatures round64 (push_shift (buffer st) s)))
          = Inl e"
    using assms(5) that by (simp add: processSample_loaded [OF assms(1-4)])
  have returned: "processSample st s now =
            (st\<lparr>buffer := push_shift (buffer st) s, lastPredTime := now,
                calls := calls st @ [standardize round64 (Some p)
                                       (computeFeatures round64 (push_shift (buffer st) s))],
                shown := Some \<lparr>pred_label = label_or_unknown ls (argmax probs),
                               pred_five = mapToFive (label_or_unknown ls (argmax probs)),
                               pred_confidence = prob_at probs (argmax probs)\<rparr>\<rparr>,
             Some Predicted)"
    if "m (standardize round64 (Some p) (computeFeatures round64 (push_shift (buffer st) s)))
          = Inr probs"
    using assms(5) that by (simp add: processSample_loaded [OF assms(1-4)])
  from thrown returned again show ?thesis by blast
qed

text \<open>
  The amended claim C8 on a classifier that throws.
\<close>

theorem failed_inference_handling_witness:
  "model (fresh failing_model) = Some failing_model
   \<and> length (buffer (fresh failing_model)) = 199
   \<and> (800::int) \<le> 1000 - lastPredTime (fresh failing_model)
   \<and> failing_model (standardize round64 (Some unit_scaler)
         (computeFeatures round64 (push_shift (buffer (fresh failing_model)) resting)))
       = Inl PredictionRuntimeError
   \<and> (800::int) \<le> 1900 - 1000
   \<and> processSample (fresh failing_model) resting 1000
       = ((fresh failing_model)
            \<lparr>buffer := resting_window, lastPredTime := 1000,
             calls := [standardize round64 (Some unit_scaler)
                         (computeFeatures round64 resting_window)],
             logs := PredictionFailed\<rparr>,
          Some (Caught PredictionRuntimeError))
   \<and> length (calls (fst (processSample (fst (processSample (fresh failing_model) resting 1000))
                       resting 1900))) = 2"
proof -
  have fm: "failing_model v = Inl PredictionRuntimeError" for v
    by (simp add: failing_model_def)
  have q: "(800::int) \<le> 1000 - lastPredTime (fresh failing_model)"
    by (simp add: fresh_fields)
  have pre: "failing_model (standardize round64 (Some unit_scaler)
         (computeFeatures round64 (push_shift (buffer (fresh failing_model)) resting)))
       = Inl PredictionRuntimeError"
    by (rule fm)
  note T = failed_inference_handling [OF fresh_fields(1-4) q, of resting PredictionRuntimeError
      1900 resting, THEN conjunct1, THEN mp, OF pre]
  have r: "(800::int) \<le> 1900 - 1000" by simp
  have A: "processSample (fresh failing_model) resting 1000
       = ((fresh failing_model)
            \<lparr>buffer := resting_window, lastPredTime := 1000,
             calls := [standardize round64 (Some unit_scaler)
                         (computeFeatures round64 resting_window)],
             logs := PredictionFailed\<rparr>,
          Some (Caught PredictionRuntimeError))"
    using T [THEN conjunct1] by (simp add: fresh_fields filling_window_push)
  have B: "length (calls (fst (processSample (fst (processSample (fresh failing_model) resting 1000))
                       resting 1900))) = 2"
    using T [THEN conjunct2, THEN mp, OF r] by (simp add: fresh_fields)
  have l: "length (buffer (fresh failing_model)) = 199"
    by (simp add: fresh_fields filling_window_length)
  from fresh_fields(1) l q pre r A B show ?thesis by blast
qed

text \<open>
  Claim C8 as stated fails on a malformed output: an empty array raises no error, the first
  label is displayed with a confidence that is not a number, and the status line keeps its
  text.
\<close>

theorem empty_output_displayed_counterexample:
  "processSample (fresh empty_model) resting 1000
   = ((fresh empty_model)
        \<lparr>buffer := resting_window, lastPredTime := 1000,
         calls := [standardize round64 (Some unit_scaler)
                     (computeFeatures round64 resting_window)],
         shown := Some \<lparr>pred_label = ''Walking'', pred_five = 3, pred_confidence = NaN\<rparr>\<rparr>,
      Some Predicted)
   \<and> logs (fst (processSample (fresh empty_model) resting 1000)) = ModelReady"
proof -
  have five: "mapToFive ''Walking'' = 3" by code_simp
  have am: "argmax [] = 0" by (simp add: argmax_def argmax_loop.simps)
  have em: "empty_model v = Inr []" for v by (simp add: empty_model_def)
  have eq: "processSample (fresh empty_model) resting 1000
   = ((fresh empty_model)
        \<lparr>buffer := resting_window, lastPredTime := 1000,
         calls := [standardize round64 (Some unit_scaler)
                     (computeFeatures round64 resting_window)],
         shown := Some \<lparr>pred_label = ''Walking'', pred_five = 3, pred_confidence = NaN\<rparr>\<rparr>,
      Some Predicted)"
    by (simp add: processSample_loaded [OF fresh_fields(1-4)] fresh_fields em am five
          filling_window_push label_or_unknown_def prob_at_def)
  then show ?thesis by (simp add: fresh_fields)
qed

section \<open>The five-level mapping\<close>

lemma toLowerCase_Nil_iff: "toLowerCase lab = [] \<longleftrightarrow> lab = []"
  by (simp add: toLowerCase_def)

lemma jogging_no_rest:
  "\<not> str_includes ''jogging'' ''sit''" "\<not> str_includes ''jogging'' ''stand''"
  "\<not> str_includes ''running'' ''sit''" "\<not> str_includes ''running'' ''stand''"
  by simp_all

text \<open>
  Claim C6, as the script has it. Matching is on the lower-cased label. The level is 1
  exactly when the label contains \<open>sit\<close> or contains \<open>stand\<close>; it is 5 exactly when the
  label equals \<open>jogging\<close> or equals \<open>running\<close>; in every other case, the empty label
  and \<open>walking\<close>, \<open>upstairs\<close>, \<open>downstairs\<close> among them, it is 3. The six examples of
  the claim hold.
\<close>

theorem mapToFive_rules:
  "(mapToFive lab = 1) =
      (str_includes (toLowerCase lab) ''sit'' \<or> str_includes (toLowerCase lab) ''stand'')
   \<and> (mapToFive lab = 5) = (toLowerCase lab = ''jogging'' \<or> toLowerCase lab = ''running'')
   \<and> (mapToFive lab = 3) =
      (\<not> str_includes (toLowerCase lab) ''sit'' \<and> \<not> str_includes (toLowerCase lab) ''stand''
       \<and> toLowerCase lab \<noteq> ''jogging'' \<and> toLowerCase lab \<noteq> ''running'')
   \<and> mapToFive ''Sitting'' = 1 \<and> mapToFive ''JOGGING'' = 5 \<and> mapToFive ''Walking'' = 3
   \<and> mapToFive ''Upstairs'' = 3 \<and> mapToFive ''banana'' = 3 \<and> mapToFive '''' = 3"
proof -
  have ex: "mapToFive ''Sitting'' = 1 \<and> mapToFive ''JOGGING'' = 5 \<and> mapToFive ''Walking'' = 3
   \<and> mapToFive ''Upstairs'' = 3 \<and> mapToFive ''banana'' = 3 \<and> mapToFive '''' = 3"
    by code_simp
  have gen: "(mapToFive lab = 1) =
      (str_includes (toLowerCase lab) ''sit'' \<or> str_includes (toLowerCase lab) ''stand'')
   \<and> (mapToFive lab = 5) = (toLowerCase lab = ''jogging'' \<or> toLowerCase lab = ''running'')
   \<and> (mapToFive lab = 3) =
      (\<not> str_includes (toLowerCase lab) ''sit'' \<and> \<not> str_includes (toLowerCase lab) ''stand''
       \<and> toLowerCase lab \<noteq> ''jogging'' \<and> toLowerCase lab \<noteq> ''running'')"
  proof (cases "lab = []")
    case True
    then show ?thesis by (simp add: mapToFive_def toLowerCase_def)
  next
    case False
    then show ?thesis
      using jogging_no_rest by (auto simp: mapToFive_def Let_def)
  qed
  from gen ex show ?thesis by (simp only: simp_thms)
qed

text \<open>
  Claim C6 as stated fails on a label that contains \<open>jogging\<close> without being equal to it:
  no earlier rule matches \<open>slow jogging\<close>, and its level is 3, not 5.
\<close>

theorem mapToFive_contains_counterexample:
  "str_includes (toLowerCase ''slow jogging'') ''jogging''
   \<and> \<not> str_includes (toLowerCase ''slow jogging'') ''sit''
   \<and> \<not> str_includes (toLowerCase ''slow jogging'') ''stand''
   \<and> toLowerCase ''slow jogging'' \<noteq> ''walking''
   \<and> toLowerCase ''slow jogging'' \<noteq> ''upstairs''
   \<and> toLowerCase ''slow jogging'' \<noteq> ''downstairs''
   \<and> mapToFive ''slow jogging'' = 3"
  by code_simp

text \<open>
  Claim C10. Whatever the label, the level is 1, 3 or 5, never 2 or 4, in both listings
  of the script.
\<close>

theorem mapToFive_levels:
  "mapToFive lab \<in> {1, 3, 5} \<and> mapToFive lab \<noteq> 2 \<and> mapToFive lab \<noteq> 4
   \<and> mapToFive_v2 lab \<in> {1, 3, 5} \<and> mapToFive_v2 lab \<noteq> 2 \<and> mapToFive_v2 lab \<noteq> 4"
  by (simp add: mapToFive_def mapToFive_v2_def Let_def)

section \<open>The arg-max decision\<close>

lemma argmax_loop_first_max:
  assumes "m < i" and "i \<le> length ps"
    and "\<forall>j<i. ps ! j \<le> ps ! m" and "\<forall>j<m. ps ! j < ps ! m"
  shows "argmax_loop (map Num ps) i m < length ps
     \<and> (\<forall>j<length ps. ps ! j \<le> ps ! argmax_loop (map Num ps) i m)
     \<and> (\<forall>j<argmax_loop (map Num ps) i m. ps ! j < ps ! argmax_loop (map Num ps) i m)"
  using assms
proof (induction "length ps - i" arbitrary: i m)
  case 0
  then have "i = length ps" by simp
  with "0.prems" show ?case
    by (subst (1 2 3 4) argmax_loop.simps) simp
next
  case (Suc k)
  then have i: "i < length ps" by simp
  let ?m' = "if ps ! m < ps ! i then i else m"
  have step: "argmax_loop (map Num ps) i m = argmax_loop (map Num ps) (i + 1) ?m'"
    using i Suc.prems(1) by (subst argmax_loop.simps) simp
  have 1: "?m' < i + 1" using Suc.prems(1) by simp
  have 2: "i + 1 \<le> length ps" using i by simp
  have 3: "\<forall>j<i + 1. ps ! j \<le> ps ! ?m'"
    using Suc.prems(3) by (auto simp: less_Suc_eq intro: order_trans less_imp_le)
  have 4: "\<forall>j<?m'. ps ! j < ps ! ?m'"
    using Suc.prems(3,4) by (auto intro: le_less_trans)
  have k: "k = length ps - (i + 1)" using Suc.hyps(2) by simp
  show ?case
    unfolding step by (rule Suc.hyps(1) [OF k 1 2 3 4])
qed

text \<open>
  Claim C7. On a non-empty array of probabilities the selected index is the lowest one
  that holds the maximum: every entry before it is strictly smaller. The distribution
  \<open>[0.5, 0.5, 0.1]\<close> selects index 0.
\<close>

theorem argmax_lowest_index:
  assumes "ps \<noteq> []"
  shows "argmax (map Num ps) < length ps
     \<and> ps ! argmax (map Num ps) = Max (set ps)
     \<and> (\<forall>j<argmax (map Num ps). ps ! j < Max (set ps))
     \<and> argmax [Num (1 / 2), Num (1 / 2), Num (1 / 10)] = 0"
proof -
  let ?r = "argmax (map Num ps)"
  have l: "1 \<le> length ps" using assms by (cases ps) simp_all
  have inv: "?r < length ps \<and> (\<forall>j<length ps. ps ! j \<le> ps ! ?r) \<and> (\<forall>j<?r. ps ! j < ps ! ?r)"
    unfolding argmax_def using l by (intro argmax_loop_first_max) simp_all
  have "Max (set ps) = ps ! ?r"
  proof (rule Max_eqI)
    show "finite (set ps)" by simp
    show "ps ! ?r \<in> set ps" using inv by simp
    show "y \<le> ps ! ?r" if "y \<in> set ps" for y
      using that inv by (auto simp: in_set_conv_nth)
  qed
  moreover have "argmax [Num (1 / 2), Num (1 / 2), Num (1 / 10)] = 0"
    by (simp add: argmax_def argmax_loop.simps)
  ultimately show ?thesis using inv by simp
qed

text \<open>
  Claim C7 on a distribution whose maximum is reached at the indices 1 and 2.
\<close>

theorem argmax_lowest_index_witness:
  "[1 / 5, 2 / 5, 2 / 5 :: real] \<noteq> [] \<and> argmax [Num (1 / 5), Num (2 / 5), Num (2 / 5)] = 1"
proof -
  have "argmax (map Num [1 / 5, 2 / 5, 2 / 5]) = 1"
    by (simp add: argmax_def argmax_loop.simps)
  with argmax_lowest_index [of "[1 / 5, 2 / 5, 2 / 5]"] show ?thesis by simp
qed

end
